theory Spec2Isabelle
  imports Complex_Main
begin

unbundle bit_operations_syntax

section \<open>Medium attenuation law\<close>

text \<open>
  \<^verbatim>\<open>attenuation(f, alpha0, eta)\<close> of \<^verbatim>\<open>domain_convergence_transducer.py\<close>:
  the power law \<^verbatim>\<open>alpha0 * (f * 1e-6)**eta\<close>, then divided by 8.686
  (``convert to Nepers/m''). Floats are modelled as reals, \<^verbatim>\<open>**\<close> as \<open>powr\<close>
  (the frequencies passed are positive).
\<close>

definition attenuation_dc :: "real \<Rightarrow> real \<Rightarrow> real \<Rightarrow> real" where
  "attenuation_dc f alpha0 eta =
     (let alpha = alpha0 * (f * (1 / 10 ^ 6)) powr eta;
          alpha = alpha / (8686 / 1000)
      in alpha)"

text \<open>
  \<^verbatim>\<open>attenuation(f, alpha0, eta)\<close> of
  \<^verbatim>\<open>transducer_nonlinear_homogeneous_interpolation.py\<close>: the same power law,
  returned without the division.
\<close>

definition attenuation_hi :: "real \<Rightarrow> real \<Rightarrow> real \<Rightarrow> real" where
  "attenuation_hi f alpha0 eta =
     (let alpha = alpha0 * (f * (1 / 10 ^ 6)) powr eta
      in alpha)"

section \<open>Refinement policy of the interpolating cascade\<close>

text \<open>
  \<^verbatim>\<open>is_power_of_two(n)\<close>: \<^verbatim>\<open>(n != 0) and (n & (n-1) == 0)\<close> on Python's
  unbounded integers.
\<close>

definition is_power_of_two :: "int \<Rightarrow> bool" where
  "is_power_of_two n = (n \<noteq> 0 \<and> n AND (n - 1) = 0)"

text \<open>
  The guard of the refinement block in the harmonic loop:
  \<^verbatim>\<open>if i_harm != 1:\<close> and inside it \<^verbatim>\<open>if is_power_of_two(i_harm):\<close>.
\<close>

definition refinement_triggered :: "nat \<Rightarrow> bool" where
  "refinement_triggered i_harm = (i_harm \<noteq> 1 \<and> is_power_of_two (int i_harm))"

section \<open>Errors and arrays\<close>

text \<open>The Python exceptions the modelled code can raise.\<close>

datatype error = ValueError | IndexError | NameError | ZeroDivisionError

definition ebind :: "error + 'a \<Rightarrow> ('a \<Rightarrow> error + 'b) \<Rightarrow> error + 'b" where
  "ebind x f = (case x of Inl e \<Rightarrow> Inl e | Inr a \<Rightarrow> f a)"

text \<open>
  A voxel index \<^verbatim>\<open>(i, j, k)\<close> and the contents of a complex array of shape
  \<^verbatim>\<open>(L, M, N)\<close>. The mesh \<^verbatim>\<open>r\<close> has shape \<^verbatim>\<open>(L, M, N, 3)\<close>:
  \<open>coord r (i, j, k) c\<close> is \<^verbatim>\<open>r[i, j, k, c]\<close>.
\<close>

type_synonym idx = "nat \<times> nat \<times> nat"

type_synonym field = "idx \<Rightarrow> complex"

record grid =
  dimL :: nat
  dimM :: nat
  dimN :: nat
  coord :: "idx \<Rightarrow> nat \<Rightarrow> real"

text \<open>All indices of an array of shape \<^verbatim>\<open>(l, m, n)\<close>, in the row-major order of \<^verbatim>\<open>np.argwhere\<close>.\<close>

definition indices :: "nat \<Rightarrow> nat \<Rightarrow> nat \<Rightarrow> idx list" where
  "indices l m n = [(i, j, k). i \<leftarrow> [0..<l], j \<leftarrow> [0..<m], k \<leftarrow> [0..<n]]"

text \<open>\<^verbatim>\<open>np.max\<close> and \<^verbatim>\<open>np.min\<close> raise \<^verbatim>\<open>ValueError\<close> on an array without elements.\<close>

definition np_max :: "('a::linorder) list \<Rightarrow> error + 'a" where
  "np_max xs = (case xs of [] \<Rightarrow> Inl ValueError | x # ys \<Rightarrow> Inr (fold max ys x))"

definition np_min :: "('a::linorder) list \<Rightarrow> error + 'a" where
  "np_min xs = (case xs of [] \<Rightarrow> Inl ValueError | x # ys \<Rightarrow> Inr (fold min ys x))"

section \<open>Domain truncation: \<^verbatim>\<open>restrict_domain\<close>\<close>

text \<open>
  Lines \<^verbatim>\<open>rel_p = np.abs(f_rhs)/np.max(np.abs(f_rhs))\<close> and
  \<^verbatim>\<open>where_bigger = np.argwhere(rel_p > tol)\<close>. The array \<^verbatim>\<open>f_rhs\<close> has the shape
  \<^verbatim>\<open>(L, M, N)\<close> of \<^verbatim>\<open>r\<close>, as at the only call site. When the maximum is zero,
  numpy's quotient is \<^verbatim>\<open>nan\<close> and every comparison is false.
\<close>

definition where_bigger :: "grid \<Rightarrow> field \<Rightarrow> real \<Rightarrow> error + idx list" where
  "where_bigger r f_rhs tol =
     ebind (np_max (map (\<lambda>p. cmod (f_rhs p)) (indices (dimL r) (dimM r) (dimN r)))) (\<lambda>mx.
       Inr (filter (\<lambda>p. mx \<noteq> 0 \<and> cmod (f_rhs p) / mx > tol)
              (indices (dimL r) (dimM r) (dimN r))))"

text \<open>
  The six index bounds \<^verbatim>\<open>min_x_idx, max_x_idx, ..., max_z_idx\<close>, each a
  \<^verbatim>\<open>np.min\<close> or \<^verbatim>\<open>np.max\<close> over one column of \<^verbatim>\<open>where_bigger\<close>.
\<close>

type_synonym box = "(nat \<times> nat) \<times> (nat \<times> nat) \<times> (nat \<times> nat)"

definition bounding_box :: "grid \<Rightarrow> field \<Rightarrow> real \<Rightarrow> error + box" where
  "bounding_box r f_rhs tol =
     ebind (where_bigger r f_rhs tol) (\<lambda>wb.
     ebind (np_min (map fst wb)) (\<lambda>min_x_idx.
     ebind (np_max (map fst wb)) (\<lambda>max_x_idx.
     ebind (np_min (map (fst \<circ> snd) wb)) (\<lambda>min_y_idx.
     ebind (np_max (map (fst \<circ> snd) wb)) (\<lambda>max_y_idx.
     ebind (np_min (map (snd \<circ> snd) wb)) (\<lambda>min_z_idx.
     ebind (np_max (map (snd \<circ> snd) wb)) (\<lambda>max_z_idx.
       Inr ((min_x_idx, max_x_idx), (min_y_idx, max_y_idx), (min_z_idx, max_z_idx)))))))))"

text \<open>
  Arrays live in a heap: an address is a position in the list, and a new array is
  appended (\<^verbatim>\<open>np.zeros\<close>, the result of an arithmetic expression, a copy).
\<close>

type_synonym addr = nat

type_synonym heap = "field list"

definition alloc :: "heap \<Rightarrow> field \<Rightarrow> heap \<times> addr" where
  "alloc h a = (h @ [a], length h)"

text \<open>
  \<^verbatim>\<open>dst[x0:x1, y0:y1, z0:z1] = src[x0:x1, y0:y1, z0:z1]\<close>: Python slices are
  half-open, the upper index is excluded.
\<close>

definition slice_assign :: "field \<Rightarrow> box \<Rightarrow> field \<Rightarrow> field" where
  "slice_assign dst b src =
     (case b of ((x0, x1), (y0, y1), (z0, z1)) \<Rightarrow>
        (\<lambda>(i, j, k). if x0 \<le> i \<and> i < x1 \<and> y0 \<le> j \<and> j < y1 \<and> z0 \<le> k \<and> k < z1
                      then src (i, j, k) else dst (i, j, k)))"

text \<open>
  \<^verbatim>\<open>restrict_domain(f_rhs, tol, r)\<close>, with \<^verbatim>\<open>f_rhs\<close> given by its address. It
  returns \<^verbatim>\<open>xMin, xMax, yMin, yMax\<close> and the address of the new array
  \<^verbatim>\<open>P_trim\<close>, with the heap after the call.
\<close>

definition restrict_domain ::
  "heap \<Rightarrow> addr \<Rightarrow> real \<Rightarrow> grid \<Rightarrow> error + (real \<times> real \<times> real \<times> real \<times> addr) \<times> heap" where
  "restrict_domain h f_rhs tol r =
     ebind (bounding_box r (h ! f_rhs) tol) (\<lambda>b.
       case b of ((min_x_idx, max_x_idx), (min_y_idx, max_y_idx), (min_z_idx, max_z_idx)) \<Rightarrow>
         let xMin = coord r (min_x_idx, 0, 0) 0;
             xMax = coord r (max_x_idx, 0, 0) 0;
             yMin = coord r (0, min_y_idx, 0) 1;
             yMax = coord r (0, max_y_idx, 0) 1;
             (h1, P_trim) = alloc h (\<lambda>p. 0);
             h2 = h1[P_trim := slice_assign (h1 ! P_trim) b (h1 ! f_rhs)]
         in Inr ((xMin, xMax, yMin, yMax, P_trim), h2))"

section \<open>Domain truncation: \<^verbatim>\<open>convergence_domain_size\<close>\<close>

text \<open>The tolerances \<^verbatim>\<open>TOL = 10**np.array([-0.5, -0.75, ..., -4])\<close>.\<close>

definition TOL :: "real list" where
  "TOL = map (\<lambda>e. 10 powr e)
     [- (1 / 2), - (3 / 4), - 1, - (5 / 4), - (3 / 2), - (7 / 4), - 2, - (9 / 4),
      - (5 / 2), - (11 / 4), - 3, - (13 / 4), - (7 / 2), - (15 / 4), - 4]"

text \<open>
  What one pass of the loop over \<^verbatim>\<open>TOL\<close> stores in \<^verbatim>\<open>xMinVals\<close>,
  \<^verbatim>\<open>xMaxVals\<close>, \<^verbatim>\<open>yMinVals\<close>, \<^verbatim>\<open>yMaxVals\<close> and
  \<^verbatim>\<open>line_harmonic\<close>.
\<close>

record convergence_record =
  rec_tol :: real
  rec_xMin :: real
  rec_xMax :: real
  rec_yMin :: real
  rec_yMax :: real
  rec_line :: "complex list"

text \<open>
  The body of \<^verbatim>\<open>for i_tol in range(TOL.shape[0])\<close>. The matrix-vector product
  \<^verbatim>\<open>mvp\<close> wraps \<^verbatim>\<open>mvp_volume_potential\<close> of the \<^verbatim>\<open>vines\<close> package, which is
  not part of these sources: it is a parameter, taken with the two column-major
  reshapes around it, so it maps the contents of an \<^verbatim>\<open>(L, M, N)\<close> array to the
  contents of one, and it does not write to its argument. \<^verbatim>\<open>np.int\<close> is Python's
  \<^verbatim>\<open>int\<close>.
\<close>

fun convergence_loop ::
  "(field \<Rightarrow> field) \<Rightarrow> grid \<Rightarrow> addr \<Rightarrow> real list \<Rightarrow> heap
     \<Rightarrow> error + convergence_record list \<times> heap" where
  "convergence_loop mvp r f_rhs [] h = Inr ([], h)"
| "convergence_loop mvp r f_rhs (tol # tols) h =
     ebind (restrict_domain h f_rhs tol r) (\<lambda>(res, h1).
       case res of (xMin, xMax, yMin, yMax, P_trim) \<Rightarrow>
         let (h2, xInVec) = alloc h1 (h1 ! P_trim);
             (h3, xOut) = alloc h2 (mvp (h2 ! xInVec));
             ny_centre = dimM r div 2;
             nz_centre = dimN r div 2;
             line = map (\<lambda>i. (h3 ! xOut) (i, ny_centre, nz_centre)) [0..<dimL r];
             rc = \<lparr>rec_tol = tol, rec_xMin = xMin, rec_xMax = xMax,
                    rec_yMin = yMin, rec_yMax = yMax, rec_line = line\<rparr>
         in ebind (convergence_loop mvp r f_rhs tols h3) (\<lambda>(recs, h').
              Inr (rc # recs, h')))"

text \<open>
  \<^verbatim>\<open>convergence_domain_size(f_rhs, mvp, circ_op, r, L, M, N, harm, roc, k1)\<close>,
  with \<^verbatim>\<open>L, M, N\<close> the shape of \<^verbatim>\<open>r\<close>. It returns \<^verbatim>\<open>xMinVals\<close>; the records
  are what it pickles to disk.
\<close>

definition convergence_domain_size ::
  "heap \<Rightarrow> addr \<Rightarrow> (field \<Rightarrow> field) \<Rightarrow> grid
     \<Rightarrow> error + (real list \<times> convergence_record list) \<times> heap" where
  "convergence_domain_size h f_rhs mvp r =
     ebind (convergence_loop mvp r f_rhs TOL h) (\<lambda>(recs, h').
       Inr ((map rec_xMin recs, recs), h'))"

section \<open>The harmonic loop of \<^verbatim>\<open>domain_convergence_transducer.py\<close>\<close>

text \<open>
  The scalar \<^verbatim>\<open>a * beta * omega**2 / (rho * c**4)\<close> in front of every source term,
  with \<open>a\<close> the integer literal of the branch. All operands are Python floats, so a zero
  divisor raises.
\<close>

definition source_scalar :: "real \<Rightarrow> real \<Rightarrow> real \<Rightarrow> real \<Rightarrow> real \<Rightarrow> error + complex" where
  "source_scalar a beta omega rho c =
     (if rho * c ^ 4 = 0 then Inl ZeroDivisionError
      else Inr (complex_of_real (a * beta * omega ^ 2 / (rho * c ^ 4))))"

text \<open>\<^verbatim>\<open>P[j]\<close>: an index beyond the stored harmonics raises \<^verbatim>\<open>IndexError\<close>.\<close>

definition getP :: "'a list \<Rightarrow> nat \<Rightarrow> error + 'a" where
  "getP P j = (if j < length P then Inr (P ! j) else Inl IndexError)"

text \<open>
  The \<^verbatim>\<open>if i_harm == 1: ... elif i_harm == 4: ...\<close> ladder that assigns \<^verbatim>\<open>xIn\<close>.
  \<open>P\<close> holds the contents of \<^verbatim>\<open>P[0], P[1], ...\<close>, all of shape \<^verbatim>\<open>(L, M, N)\<close>. The
  result is \<open>Some\<close> the new array, or \<open>None\<close> when no branch is taken and \<^verbatim>\<open>xIn\<close>
  keeps its binding: the ladder has no \<^verbatim>\<open>else\<close>.
\<close>

definition xIn_dc ::
  "real \<Rightarrow> real \<Rightarrow> real \<Rightarrow> real \<Rightarrow> nat \<Rightarrow> field list \<Rightarrow> error + field option" where
  "xIn_dc beta omega rho c i_harm P =
     (if i_harm = 1 then
        ebind (source_scalar (- 2) beta omega rho c) (\<lambda>s.
        ebind (getP P 0) (\<lambda>P0.
          Inr (Some (\<lambda>p. s * P0 p * P0 p))))
      else if i_harm = 2 then
        ebind (source_scalar (- 9) beta omega rho c) (\<lambda>s.
        ebind (getP P 0) (\<lambda>P0. ebind (getP P 1) (\<lambda>P1.
          Inr (Some (\<lambda>p. s * P0 p * P1 p)))))
      else if i_harm = 3 then
        ebind (source_scalar (- 8) beta omega rho c) (\<lambda>s.
        ebind (getP P 1) (\<lambda>P1. ebind (getP P 0) (\<lambda>P0. ebind (getP P 2) (\<lambda>P2.
          Inr (Some (\<lambda>p. s * (P1 p * P1 p + 2 * P0 p * P2 p)))))))
      else if i_harm = 4 then
        ebind (source_scalar (- 25) beta omega rho c) (\<lambda>s.
        ebind (getP P 0) (\<lambda>P0. ebind (getP P 3) (\<lambda>P3.
        ebind (getP P 1) (\<lambda>P1. ebind (getP P 2) (\<lambda>P2.
          Inr (Some (\<lambda>p. s * (P0 p * P3 p + P1 p * P2 p))))))))
      else Inr None)"

text \<open>
  The state of the loop: the heap, the addresses of the slots \<^verbatim>\<open>P[0], ..., P[n_harm-1]\<close>
  of the preallocated array \<^verbatim>\<open>P\<close>, and the binding of the variable \<^verbatim>\<open>xIn\<close>
  (unbound before the first assignment).
\<close>

record dc_state =
  hp :: heap
  P_slots :: "addr list"
  xIn_var :: "addr option"

text \<open>
  One pass of \<^verbatim>\<open>for i_harm in range(1, n_harm)\<close>: the ladder, the reshape into
  \<^verbatim>\<open>xInVec\<close>, the convergence study on \<^verbatim>\<open>xIn\<close>, and
  \<^verbatim>\<open>P[i_harm] = mvp(xInVec).reshape(L, M, N, order='F')\<close>. The operator depends on
  the order through \<^verbatim>\<open>k2\<close>, so \<open>mvp\<close> takes \<open>i_harm\<close>.
\<close>

definition dc_step ::
  "real \<Rightarrow> real \<Rightarrow> real \<Rightarrow> real \<Rightarrow> (nat \<Rightarrow> field \<Rightarrow> field) \<Rightarrow> grid \<Rightarrow> nat \<Rightarrow> dc_state
     \<Rightarrow> error + dc_state" where
  "dc_step beta omega rho c mvp r i_harm s =
     ebind (xIn_dc beta omega rho c i_harm (map (\<lambda>a. hp s ! a) (P_slots s))) (\<lambda>v.
       let (h1, x) = (case v of
                        Some a \<Rightarrow> (let (h, p) = alloc (hp s) a in (h, Some p))
                      | None \<Rightarrow> (hp s, xIn_var s))
       in case x of
            None \<Rightarrow> Inl NameError
          | Some xIn \<Rightarrow>
              let (h2, xInVec) = alloc h1 (h1 ! xIn)
              in ebind (convergence_domain_size h2 xIn (mvp i_harm) r) (\<lambda>(xMinVals, h3).
                   if i_harm < length (P_slots s)
                   then Inr (s\<lparr>hp := h3[P_slots s ! i_harm := mvp i_harm (h3 ! xInVec)],
                                xIn_var := x\<rparr>)
                   else Inl IndexError))"

text \<open>
  The same pass with the call of \<^verbatim>\<open>convergence_domain_size\<close> left out: what the body
  of the loop does when the study is not run. It serves as the term of comparison for
  the effect of the study.
\<close>

definition dc_step_without_study ::
  "real \<Rightarrow> real \<Rightarrow> real \<Rightarrow> real \<Rightarrow> (nat \<Rightarrow> field \<Rightarrow> field) \<Rightarrow> grid \<Rightarrow> nat \<Rightarrow> dc_state
     \<Rightarrow> error + dc_state" where
  "dc_step_without_study beta omega rho c mvp r i_harm s =
     ebind (xIn_dc beta omega rho c i_harm (map (\<lambda>a. hp s ! a) (P_slots s))) (\<lambda>v.
       let (h1, x) = (case v of
                        Some a \<Rightarrow> (let (h, p) = alloc (hp s) a in (h, Some p))
                      | None \<Rightarrow> (hp s, xIn_var s))
       in case x of
            None \<Rightarrow> Inl NameError
          | Some xIn \<Rightarrow>
              let (h2, xInVec) = alloc h1 (h1 ! xIn)
              in if i_harm < length (P_slots s)
                 then Inr (s\<lparr>hp := h2[P_slots s ! i_harm := mvp i_harm (h2 ! xInVec)],
                              xIn_var := x\<rparr>)
                 else Inl IndexError)"

fun dc_loop ::
  "real \<Rightarrow> real \<Rightarrow> real \<Rightarrow> real \<Rightarrow> (nat \<Rightarrow> field \<Rightarrow> field) \<Rightarrow> grid \<Rightarrow> nat list \<Rightarrow> dc_state
     \<Rightarrow> error + dc_state" where
  "dc_loop beta omega rho c mvp r [] s = Inr s"
| "dc_loop beta omega rho c mvp r (i_harm # rest) s =
     ebind (dc_step beta omega rho c mvp r i_harm s) (dc_loop beta omega rho c mvp r rest)"

definition dc_cascade ::
  "real \<Rightarrow> real \<Rightarrow> real \<Rightarrow> real \<Rightarrow> (nat \<Rightarrow> field \<Rightarrow> field) \<Rightarrow> grid \<Rightarrow> nat \<Rightarrow> dc_state
     \<Rightarrow> error + dc_state" where
  "dc_cascade beta omega rho c mvp r n_harm s =
     dc_loop beta omega rho c mvp r [1..<n_harm] s"

section \<open>The harmonic loop of \<^verbatim>\<open>transducer_nonlinear_homogeneous_interpolation.py\<close>\<close>

text \<open>
  Here \<^verbatim>\<open>P\<close> is a Python list of arrays, each with its own shape, since the mesh
  changes between orders.
\<close>

record ndarray =
  shape :: idx
  dat :: field

text \<open>
  numpy broadcasting of two 3-D arrays: on each axis the lengths agree or one of them
  is 1; otherwise the operation raises \<^verbatim>\<open>ValueError\<close>.
\<close>

definition bdim :: "nat \<Rightarrow> nat \<Rightarrow> error + nat" where
  "bdim a b = (if a = b then Inr a else if a = 1 then Inr b else if b = 1 then Inr a
               else Inl ValueError)"

definition bidx :: "nat \<Rightarrow> nat \<Rightarrow> nat" where
  "bidx d i = (if d = 1 then 0 else i)"

definition broadcast2 ::
  "(complex \<Rightarrow> complex \<Rightarrow> complex) \<Rightarrow> ndarray \<Rightarrow> ndarray \<Rightarrow> error + ndarray" where
  "broadcast2 f a b =
     (case shape a of (l1, m1, n1) \<Rightarrow> case shape b of (l2, m2, n2) \<Rightarrow>
        ebind (bdim l1 l2) (\<lambda>l. ebind (bdim m1 m2) (\<lambda>m. ebind (bdim n1 n2) (\<lambda>n.
          Inr \<lparr>shape = (l, m, n),
               dat = (\<lambda>(i, j, k). f (dat a (bidx l1 i, bidx m1 j, bidx n1 k))
                                     (dat b (bidx l2 i, bidx m2 j, bidx n2 k)))\<rparr>))))"

definition np_mul :: "ndarray \<Rightarrow> ndarray \<Rightarrow> error + ndarray" where
  "np_mul = broadcast2 (*)"

definition np_add :: "ndarray \<Rightarrow> ndarray \<Rightarrow> error + ndarray" where
  "np_add = broadcast2 (+)"

definition np_scale :: "complex \<Rightarrow> ndarray \<Rightarrow> ndarray" where
  "np_scale s a = a\<lparr>dat := (\<lambda>p. s * dat a p)\<rparr>"

text \<open>
  \<^verbatim>\<open>a.reshape(...)\<close> in column-major order (\<^verbatim>\<open>order='F'\<close>) from one 3-D shape to
  another; it raises \<^verbatim>\<open>ValueError\<close> when the sizes differ.
\<close>

definition reshapeF :: "ndarray \<Rightarrow> idx \<Rightarrow> error + ndarray" where
  "reshapeF a sh =
     (case shape a of (l0, m0, n0) \<Rightarrow> case sh of (l, m, n) \<Rightarrow>
        if l0 * m0 * n0 \<noteq> l * m * n then Inl ValueError
        else Inr \<lparr>shape = (l, m, n),
                  dat = (\<lambda>(i, j, k). let q = i + l * (j + m * k)
                                      in dat a (q mod l0, (q div l0) mod m0, q div (l0 * m0)))\<rparr>)"

text \<open>
  The variables of the loop: the mesh \<^verbatim>\<open>r\<close> with \<^verbatim>\<open>L, M, N\<close> (and its axes
  \<^verbatim>\<open>X, Y, Z\<close>, always those of \<^verbatim>\<open>r\<close>); \<^verbatim>\<open>dx, wx, wy, wz\<close>; the refined mesh
  \<^verbatim>\<open>r2\<close> with \<^verbatim>\<open>L2, M2, N2\<close> and \<^verbatim>\<open>points2\<close>, unbound before the first
  refinement; the lists \<^verbatim>\<open>P\<close> and \<^verbatim>\<open>interp_funs\<close>, an interpolator being the mesh
  and the array it was built from; and \<^verbatim>\<open>xIn\<close>.
\<close>

record hi_state =
  hi_r :: grid
  hi_dx :: real
  hi_wx :: real
  hi_wy :: real
  hi_wz :: real
  hi_r2 :: "grid option"
  hi_P :: "ndarray list"
  interp_funs :: "(grid \<times> ndarray) list"
  hi_xIn :: "ndarray option"

text \<open>
  The refinement block (the body of \<^verbatim>\<open>if is_power_of_two(i_harm):\<close>).
  \<^verbatim>\<open>generatedomain\<close> belongs to \<^verbatim>\<open>vines.geometry\<close>, which is not part of these
  sources: it is a parameter, returning the mesh together with its dimensions. The
  index \<^verbatim>\<open>-1\<close> is the last one of the axis and raises on an empty axis.
\<close>

definition refine :: "(real \<Rightarrow> real \<Rightarrow> real \<Rightarrow> real \<Rightarrow> grid) \<Rightarrow> hi_state \<Rightarrow> error + hi_state" where
  "refine generatedomain s =
     (let dx2 = hi_dx s / 2;
          wx2 = hi_wx s / 2;
          wy2 = hi_wy s / 2;
          wz2 = wy2;
          r2 = generatedomain dx2 wx2 wy2 wz2;
          r = hi_r s
      in if dimL r2 = 0 \<or> dimM r2 = 0 \<or> dimN r2 = 0
            \<or> dimL r = 0 \<or> dimM r = 0 \<or> dimN r = 0 then Inl IndexError
         else
           let r2 = r2\<lparr>coord := (\<lambda>p c.
                      if c = 0
                      then coord r2 p 0 - coord r2 (dimL r2 - 1, 0, 0) 0
                           + coord r (dimL r - 1, 0, 0) 0 + - hi_dx s / 2 - dx2 / 2
                      else coord r2 p c)\<rparr>
           in Inr (s\<lparr>hi_r := r2, hi_r2 := Some r2,
                      hi_dx := dx2, hi_wx := wx2, hi_wy := wy2, hi_wz := wz2\<rparr>))"

text \<open>
  \<^verbatim>\<open>interp_funs[j](points2).reshape(L2, M2, N2, order='F')\<close>. The interpolator is
  scipy's \<^verbatim>\<open>RegularGridInterpolator\<close> (nearest neighbour), a parameter \<open>interp\<close>: from
  the mesh and array it was built on and the mesh of the query points to the values at
  these points, or an error for a point outside the mesh.
\<close>

definition interp_at ::
  "(grid \<Rightarrow> ndarray \<Rightarrow> grid \<Rightarrow> error + field) \<Rightarrow> hi_state \<Rightarrow> nat \<Rightarrow> error + ndarray" where
  "interp_at interp s j =
     ebind (getP (interp_funs s) j) (\<lambda>(g, a).
       case hi_r2 s of
         None \<Rightarrow> Inl NameError
       | Some r2 \<Rightarrow>
           ebind (interp g a r2) (\<lambda>vals.
             Inr \<lparr>shape = (dimL r2, dimM r2, dimN r2), dat = vals\<rparr>))"

text \<open>
  The ladder that assigns \<^verbatim>\<open>xIn\<close>, orders 1 to 6; \<open>None\<close> when no branch is taken.
  Orders 2 and 3 multiply the interpolated arrays, the other orders the stored arrays
  \<^verbatim>\<open>P[j]\<close> themselves.
\<close>

definition xIn_hi ::
  "(grid \<Rightarrow> ndarray \<Rightarrow> grid \<Rightarrow> error + field) \<Rightarrow> real \<Rightarrow> real \<Rightarrow> real \<Rightarrow> real \<Rightarrow> nat
     \<Rightarrow> hi_state \<Rightarrow> error + ndarray option" where
  "xIn_hi interp beta omega rho c i_harm s =
     (let P = hi_P s in
      if i_harm = 1 then
        ebind (source_scalar (- 2) beta omega rho c) (\<lambda>k.
        ebind (getP P 0) (\<lambda>P0.
        ebind (np_mul (np_scale k P0) P0) (\<lambda>x. Inr (Some x))))
      else if i_harm = 2 then
        ebind (interp_at interp s 0) (\<lambda>P1_interp.
        ebind (interp_at interp s 1) (\<lambda>P2_interp.
        ebind (source_scalar (- 9) beta omega rho c) (\<lambda>k.
        ebind (np_mul (np_scale k P1_interp) P2_interp) (\<lambda>x. Inr (Some x)))))
      else if i_harm = 3 then
        ebind (interp_at interp s 0) (\<lambda>P1.
        ebind (interp_at interp s 1) (\<lambda>P2.
        ebind (interp_at interp s 2) (\<lambda>P3.
        ebind (source_scalar (- 8) beta omega rho c) (\<lambda>k.
        ebind (np_mul P2 P2) (\<lambda>a.
        ebind (np_mul (np_scale 2 P1) P3) (\<lambda>b.
        ebind (np_add a b) (\<lambda>t. Inr (Some (np_scale k t)))))))))
      else if i_harm = 4 then
        ebind (source_scalar (- 25) beta omega rho c) (\<lambda>k.
        ebind (getP P 0) (\<lambda>P0. ebind (getP P 3) (\<lambda>P3.
        ebind (np_mul P0 P3) (\<lambda>a.
        ebind (getP P 1) (\<lambda>P1. ebind (getP P 2) (\<lambda>P2.
        ebind (np_mul P1 P2) (\<lambda>b.
        ebind (np_add a b) (\<lambda>t. Inr (Some (np_scale k t))))))))))
      else if i_harm = 5 then
        ebind (source_scalar (- 18) beta omega rho c) (\<lambda>k.
        ebind (getP P 0) (\<lambda>P0. ebind (getP P 4) (\<lambda>P4.
        ebind (np_mul (np_scale 2 P0) P4) (\<lambda>a.
        ebind (getP P 1) (\<lambda>P1. ebind (getP P 3) (\<lambda>P3.
        ebind (np_mul (np_scale 2 P1) P3) (\<lambda>b.
        ebind (np_add a b) (\<lambda>ab.
        ebind (getP P 2) (\<lambda>P2.
        ebind (np_mul P2 P2) (\<lambda>d.
        ebind (np_add ab d) (\<lambda>t. Inr (Some (np_scale k t)))))))))))))
      else if i_harm = 6 then
        ebind (source_scalar (- 49) beta omega rho c) (\<lambda>k.
        ebind (getP P 0) (\<lambda>P0. ebind (getP P 5) (\<lambda>P5.
        ebind (np_mul P0 P5) (\<lambda>a.
        ebind (getP P 1) (\<lambda>P1. ebind (getP P 4) (\<lambda>P4.
        ebind (np_mul P1 P4) (\<lambda>b.
        ebind (np_add a b) (\<lambda>ab.
        ebind (getP P 2) (\<lambda>P2. ebind (getP P 3) (\<lambda>P3.
        ebind (np_mul P2 P3) (\<lambda>d.
        ebind (np_add ab d) (\<lambda>t. Inr (Some (np_scale k t))))))))))))))
      else Inr None)"

text \<open>
  One pass of \<^verbatim>\<open>for i_harm in range(1, n_harm)\<close>: the refinement block under its two
  guards, the ladder, \<^verbatim>\<open>xIn.reshape((L*M*N, 1), order='F')\<close>,
  \<^verbatim>\<open>P.append(mvp(xInVec).reshape(L, M, N, order='F'))\<close> and the new interpolator
  built from \<^verbatim>\<open>(X, Y, Z)\<close> and \<^verbatim>\<open>P[i_harm]\<close>. The operator \<open>mvp\<close> depends on the
  order and on the current mesh.
\<close>

definition hi_step ::
  "(real \<Rightarrow> real \<Rightarrow> real \<Rightarrow> real \<Rightarrow> grid) \<Rightarrow> (grid \<Rightarrow> ndarray \<Rightarrow> grid \<Rightarrow> error + field)
     \<Rightarrow> (nat \<Rightarrow> grid \<Rightarrow> field \<Rightarrow> field) \<Rightarrow> real \<Rightarrow> real \<Rightarrow> real \<Rightarrow> real \<Rightarrow> nat
     \<Rightarrow> hi_state \<Rightarrow> error + hi_state" where
  "hi_step generatedomain interp mvp beta omega rho c i_harm s =
     ebind (if refinement_triggered i_harm then refine generatedomain s else Inr s) (\<lambda>s1.
     ebind (xIn_hi interp beta omega rho c i_harm s1) (\<lambda>v.
       case (case v of Some x \<Rightarrow> Some x | None \<Rightarrow> hi_xIn s1) of
         None \<Rightarrow> Inl NameError
       | Some xIn \<Rightarrow>
           let r = hi_r s1 in
           ebind (reshapeF xIn (dimL r, dimM r, dimN r)) (\<lambda>xInVec.
             let P = hi_P s1 @ [\<lparr>shape = (dimL r, dimM r, dimN r),
                                  dat = mvp i_harm r (dat xInVec)\<rparr>]
             in ebind (getP P i_harm) (\<lambda>Pi.
                  Inr (s1\<lparr>hi_P := P, interp_funs := interp_funs s1 @ [(r, Pi)],
                           hi_xIn := Some xIn\<rparr>)))))"

fun hi_loop ::
  "(real \<Rightarrow> real \<Rightarrow> real \<Rightarrow> real \<Rightarrow> grid) \<Rightarrow> (grid \<Rightarrow> ndarray \<Rightarrow> grid \<Rightarrow> error + field)
     \<Rightarrow> (nat \<Rightarrow> grid \<Rightarrow> field \<Rightarrow> field) \<Rightarrow> real \<Rightarrow> real \<Rightarrow> real \<Rightarrow> real \<Rightarrow> nat list
     \<Rightarrow> hi_state \<Rightarrow> error + hi_state" where
  "hi_loop generatedomain interp mvp beta omega rho c [] s = Inr s"
| "hi_loop generatedomain interp mvp beta omega rho c (i_harm # rest) s =
     ebind (hi_step generatedomain interp mvp beta omega rho c i_harm s)
       (hi_loop generatedomain interp mvp beta omega rho c rest)"

definition hi_cascade ::
  "(real \<Rightarrow> real \<Rightarrow> real \<Rightarrow> real \<Rightarrow> grid) \<Rightarrow> (grid \<Rightarrow> ndarray \<Rightarrow> grid \<Rightarrow> error + field)
     \<Rightarrow> (nat \<Rightarrow> grid \<Rightarrow> field \<Rightarrow> field) \<Rightarrow> real \<Rightarrow> real \<Rightarrow> real \<Rightarrow> real \<Rightarrow> nat
     \<Rightarrow> hi_state \<Rightarrow> error + hi_state" where
  "hi_cascade generatedomain interp mvp beta omega rho c n_harm s =
     hi_loop generatedomain interp mvp beta omega rho c [1..<n_harm] s"

section \<open>The source term as the specification words it\<close>

text \<open>
  The unordered pairs \<open>(i, j)\<close> of prior orders with \<open>i + j = n - 1\<close>, listed with
  \<open>i \<le> j\<close>, and the multiplicity of a pair: 1 if \<open>i = j\<close>, 2 otherwise.
\<close>

definition index_pairs :: "nat \<Rightarrow> (nat \<times> nat) list" where
  "index_pairs n = [(i, n - 1 - i). i \<leftarrow> [0..<n], i \<le> n - 1 - i]"

definition multiplicity :: "nat \<Rightarrow> nat \<Rightarrow> nat" where
  "multiplicity i j = (if i = j then 1 else 2)"

definition pair_sum :: "field list \<Rightarrow> nat \<Rightarrow> idx \<Rightarrow> complex" where
  "pair_sum Q n p =
     sum_list (map (\<lambda>(i, j). of_nat (multiplicity i j) * (Q ! i) p * (Q ! j) p) (index_pairs n))"

text \<open>
  The source term of order \<open>n\<close> in the words of the specification: the scale
  \<open>-\<beta>\<omega>\<^sup>2/(\<rho>c\<^sup>4)\<close>, the coupling weight \<open>(n+1)\<^sup>2\<close>, and the sum over the pairs.
\<close>

definition spec_source_term ::
  "real \<Rightarrow> real \<Rightarrow> real \<Rightarrow> real \<Rightarrow> nat \<Rightarrow> field list \<Rightarrow> idx \<Rightarrow> complex" where
  "spec_source_term beta omega rho c n Q p =
     complex_of_real (- beta * omega ^ 2 / (rho * c ^ 4)) * of_nat ((n + 1) ^ 2) * pair_sum Q n p"

text \<open>The same with half the coupling weight, \<open>(n+1)\<^sup>2/2\<close>.\<close>

definition half_weight_source_term ::
  "real \<Rightarrow> real \<Rightarrow> real \<Rightarrow> real \<Rightarrow> nat \<Rightarrow> field list \<Rightarrow> idx \<Rightarrow> complex" where
  "half_weight_source_term beta omega rho c n Q p =
     complex_of_real (- beta * omega ^ 2 / (rho * c ^ 4)) * (of_nat ((n + 1) ^ 2) / 2)
       * pair_sum Q n p"

text \<open>The indices that lie inside an array of a given shape.\<close>

definition in_shape :: "idx \<Rightarrow> idx \<Rightarrow> bool" where
  "in_shape sh p = (case sh of (l, m, n) \<Rightarrow> case p of (i, j, k) \<Rightarrow> i < l \<and> j < m \<and> k < n)"

section \<open>Example inputs\<close>

text \<open>
  A mesh with a single voxel, an array of that shape that is 1 everywhere, and a state
  of the interpolating loop as it is after four harmonics on such meshes. They serve to
  instantiate the theorems below.
\<close>

definition unit_grid :: grid where
  "unit_grid = \<lparr>dimL = 1, dimM = 1, dimN = 1, coord = (\<lambda>p c. 0)\<rparr>"

definition ones :: ndarray where
  "ones = \<lparr>shape = (1, 1, 1), dat = (\<lambda>p. 1)\<rparr>"

definition example_hi_state :: hi_state where
  "example_hi_state =
     \<lparr>hi_r = unit_grid, hi_dx = 1, hi_wx = 1, hi_wy = 1, hi_wz = 1,
      hi_r2 = Some unit_grid,
      hi_P = [ones, ones, ones, ones],
      interp_funs = [(unit_grid, ones), (unit_grid, ones), (unit_grid, ones), (unit_grid, ones)],
      hi_xIn = None\<rparr>"

text \<open>
  A mesh generator that always returns one voxel, centred at half the spacing; the
  nearest-neighbour interpolator between one-voxel meshes; an interpolator that marks
  what passes through it by doubling it; the state of the interpolating loop before
  its first pass, with the incident field stored; and a state of the
  domain-convergence loop with six slots of \<^verbatim>\<open>P\<close> and a bound \<^verbatim>\<open>xIn\<close>.
\<close>

definition example_generatedomain :: "real \<Rightarrow> real \<Rightarrow> real \<Rightarrow> real \<Rightarrow> grid" where
  "example_generatedomain dx wx wy wz =
     \<lparr>dimL = 1, dimM = 1, dimN = 1, coord = (\<lambda>p c. dx / 2)\<rparr>"

definition example_interp :: "grid \<Rightarrow> ndarray \<Rightarrow> grid \<Rightarrow> error + field" where
  "example_interp g a g2 = Inr (dat a)"

definition doubling_interp :: "grid \<Rightarrow> ndarray \<Rightarrow> grid \<Rightarrow> error + field" where
  "doubling_interp g a g2 = Inr (\<lambda>p. 2 * dat a p)"

definition initial_hi_state :: hi_state where
  "initial_hi_state =
     \<lparr>hi_r = unit_grid, hi_dx = 1, hi_wx = 1, hi_wy = 1, hi_wz = 1,
      hi_r2 = None, hi_P = [ones], interp_funs = [(unit_grid, ones)], hi_xIn = None\<rparr>"

definition example_dc_state :: dc_state where
  "example_dc_state =
     \<lparr>hp = [dat ones, dat ones, dat ones, dat ones, dat ones, dat ones, dat ones],
      P_slots = [0, 1, 2, 3, 4, 5], xIn_var = Some 6\<rparr>"

text \<open>
  The state of the domain-convergence loop before its first pass when the incident
  field is zero everywhere: two slots of \<^verbatim>\<open>P\<close>, both zero.
\<close>

definition zero_dc_state :: dc_state where
  "zero_dc_state = \<lparr>hp = [\<lambda>p. 0, \<lambda>p. 0], P_slots = [0, 1], xIn_var = None\<rparr>"

text \<open>
  Stand-ins for the volume-potential operator of order \<open>i_harm\<close>: multiplication by
  \<open>i_harm + 1\<close>; and a state of the interpolating loop with seven harmonics stored and
  \<^verbatim>\<open>xIn\<close> bound, as it is when order 7 begins.
\<close>

definition example_mvp :: "nat \<Rightarrow> field \<Rightarrow> field" where
  "example_mvp i_harm f = (\<lambda>p. of_nat (i_harm + 1) * f p)"

definition example_mvp_hi :: "nat \<Rightarrow> grid \<Rightarrow> field \<Rightarrow> field" where
  "example_mvp_hi i_harm r f = example_mvp i_harm f"

definition example_hi_state7 :: hi_state where
  "example_hi_state7 =
     example_hi_state\<lparr>hi_P := [ones, ones, ones, ones, ones, ones, ones],
                        hi_xIn := Some ones\<rparr>"

section \<open>Properties\<close>

subsection \<open>Helper facts\<close>

lemma ebind_simps:
  "ebind (Inl e) f = Inl e"
  "ebind (Inr a) f = f a"
  by (simp_all add: ebind_def)

lemma ebind_eq_Inr:
  "ebind x f = Inr y \<longleftrightarrow> (\<exists>a. x = Inr a \<and> f a = Inr y)"
  by (cases x) (simp_all add: ebind_def)

lemma and_pred_zero_iff_power:
  "0 < n \<Longrightarrow> (n AND (n - 1) = 0) = (\<exists>k. n = 2 ^ k)" for n :: int
proof (induction "nat n" arbitrary: n rule: less_induct)
  case less
  show ?case
  proof (cases "even n")
    case True
    then obtain m where m: "n = 2 * m" by (elim evenE)
    with less.prems have mp: "0 < m" by simp
    have "nat m < nat n" using m mp by simp
    from less.hyps[OF this mp] have IH: "(m AND (m - 1) = 0) = (\<exists>k. m = 2 ^ k)" .
    have d: "(2 * m - 1) div 2 = m - 1" by simp
    have a: "n AND (n - 1) = 2 * (m AND (m - 1))"
      unfolding m by (subst and_rec) (simp add: d)
    have b: "(\<exists>k. n = 2 ^ k) = (\<exists>k. m = 2 ^ k)"
    proof
      assume "\<exists>k. n = 2 ^ k"
      then obtain k where k: "2 * m = (2::int) ^ k" using m by auto
      show "\<exists>k. m = 2 ^ k"
      proof (cases k)
        case 0
        with k have "2 * m = 1" by simp
        then show ?thesis by presburger
      next
        case (Suc j)
        with k have "m = 2 ^ j" by simp
        then show ?thesis by blast
      qed
    next
      assume "\<exists>k. m = 2 ^ k"
      then obtain k where "m = 2 ^ k" by blast
      then have "n = 2 ^ Suc k" using m by simp
      then show "\<exists>k. n = 2 ^ k" by blast
    qed
    show ?thesis using a b IH by simp
  next
    case False
    then obtain m where m: "n = 2 * m + 1" by (elim oddE)
    show ?thesis
    proof (cases "m = 0")
      case True
      then show ?thesis using m by (auto intro: exI[of _ 0])
    next
      case mnz: False
      have a: "n AND (n - 1) = 2 * m"
        unfolding m by (subst and_rec) simp
      have b: "\<not> (\<exists>k. n = 2 ^ k)"
      proof
        assume "\<exists>k. n = 2 ^ k"
        then obtain k where k: "2 * m + 1 = (2::int) ^ k" using m by auto
        show False
        proof (cases k)
          case 0
          with k mnz show False by simp
        next
          case (Suc j)
          with k have "2 * m + 1 = 2 * (2::int) ^ j" by simp
          then show False by presburger
        qed
      qed
      show ?thesis using a b mnz by simp
    qed
  qed
qed

subsection \<open>Bounding box of the thresholded source\<close>

lemma fold_min_Min: "fold min ys x = Min (set (x # ys))"
  by (simp only: Min.set_eq_fold)

lemma fold_max_Max: "fold max ys x = Max (set (x # ys))"
  by (simp only: Max.set_eq_fold)

lemma np_min_eq: "np_min xs = Inr v \<longleftrightarrow> xs \<noteq> [] \<and> v = Min (set xs)"
  by (cases xs) (auto simp: np_min_def fold_min_Min simp del: set_simps)

lemma np_max_eq: "np_max xs = Inr v \<longleftrightarrow> xs \<noteq> [] \<and> v = Max (set xs)"
  by (cases xs) (auto simp: np_max_def fold_max_Max simp del: set_simps)

lemma where_bigger_mono:
  assumes "where_bigger r f t1 = Inr w1" "t2 \<le> t1"
  shows "\<exists>w2. where_bigger r f t2 = Inr w2 \<and> set w1 \<subseteq> set w2"
proof -
  from assms(1) obtain mx where mx:
    "np_max (map (\<lambda>p. cmod (f p)) (indices (dimL r) (dimM r) (dimN r))) = Inr mx"
    and w1: "w1 = filter (\<lambda>p. mx \<noteq> 0 \<and> cmod (f p) / mx > t1)
                   (indices (dimL r) (dimM r) (dimN r))"
    by (auto simp: where_bigger_def ebind_eq_Inr)
  have "where_bigger r f t2 = Inr (filter (\<lambda>p. mx \<noteq> 0 \<and> cmod (f p) / mx > t2)
                   (indices (dimL r) (dimM r) (dimN r)))"
    by (simp add: where_bigger_def mx ebind_simps)
  moreover have "set w1 \<subseteq> set (filter (\<lambda>p. mx \<noteq> 0 \<and> cmod (f p) / mx > t2)
                   (indices (dimL r) (dimM r) (dimN r)))"
    unfolding w1 using assms(2) by auto
  ultimately show ?thesis by blast
qed

lemma bounding_box_eq:
  "bounding_box r f tol = Inr b \<longleftrightarrow>
     (\<exists>wb. where_bigger r f tol = Inr wb \<and> wb \<noteq> [] \<and>
        b = ((Min (fst ` set wb), Max (fst ` set wb)),
             (Min ((fst \<circ> snd) ` set wb), Max ((fst \<circ> snd) ` set wb)),
             (Min ((snd \<circ> snd) ` set wb), Max ((snd \<circ> snd) ` set wb))))"
  by (auto simp: bounding_box_def ebind_eq_Inr np_min_eq np_max_eq)

lemma indices_3_1_1: "indices 3 (Suc 0) (Suc 0) = [(0,0,0),(1,0,0),(2,0,0)]"
  by (simp add: indices_def upt_rec)

lemma indices_2_2_2: "indices 2 2 2 = [(0,0,0),(0,0,1),(0,1,0),(0,1,1),(1,0,0),(1,0,1),(1,1,0),(1,1,1)]"
  by (simp add: indices_def upt_rec)

lemma restrict_domain_eq:
  "restrict_domain h f_rhs tol r = Inr ((xMin, xMax, yMin, yMax, P_trim), h') \<longleftrightarrow>
     (\<exists>x0 x1 y0 y1 z0 z1. bounding_box r (h ! f_rhs) tol = Inr ((x0, x1), (y0, y1), (z0, z1))
        \<and> xMin = coord r (x0, 0, 0) 0 \<and> xMax = coord r (x1, 0, 0) 0
        \<and> yMin = coord r (0, y0, 0) 1 \<and> yMax = coord r (0, y1, 0) 1
        \<and> P_trim = length h
        \<and> h' = h @ [slice_assign (\<lambda>p. 0) ((x0, x1), (y0, y1), (z0, z1))
                      ((h @ [\<lambda>p. 0]) ! f_rhs)])"
  by (auto simp: restrict_domain_def ebind_eq_Inr alloc_def Let_def split: prod.splits)

lemma restrict_domain_frame:
  assumes "restrict_domain h f_rhs tol r = Inr (res, h')"
  shows "length h' = Suc (length h) \<and> (\<forall>a < length h. h' ! a = h ! a)
         \<and> snd (snd (snd (snd res))) = length h"
  using assms by (cases res) (auto simp: restrict_domain_eq nth_append)


text \<open>
  C6: for a fixed source and tolerances \<open>tol2 < tol1\<close>, whenever the box at \<open>tol1\<close>
  exists (some voxel exceeds the threshold), the box at \<open>tol2\<close> exists too and contains
  it: on every axis the minimal index does not increase and the maximal index does not
  decrease, so the number of voxels of the box does not decrease.
\<close>

theorem C6_bounding_box_monotone:
  assumes "tol2 < tol1"
    and "bounding_box r f_rhs tol1 = Inr ((x0, x1), (y0, y1), (z0, z1))"
  shows "\<exists>x0' x1' y0' y1' z0' z1'.
           bounding_box r f_rhs tol2 = Inr ((x0', x1'), (y0', y1'), (z0', z1'))
           \<and> x0' \<le> x0 \<and> x1 \<le> x1' \<and> y0' \<le> y0 \<and> y1 \<le> y1' \<and> z0' \<le> z0 \<and> z1 \<le> z1'
           \<and> (x1 - x0 + 1) * (y1 - y0 + 1) * (z1 - z0 + 1)
               \<le> (x1' - x0' + 1) * (y1' - y0' + 1) * (z1' - z0' + 1)"
proof -
  from assms(2) obtain w1 where w1: "where_bigger r f_rhs tol1 = Inr w1" "w1 \<noteq> []"
    and b1: "x0 = Min (fst ` set w1)" "x1 = Max (fst ` set w1)"
      "y0 = Min ((fst \<circ> snd) ` set w1)" "y1 = Max ((fst \<circ> snd) ` set w1)"
      "z0 = Min ((snd \<circ> snd) ` set w1)" "z1 = Max ((snd \<circ> snd) ` set w1)"
    unfolding bounding_box_eq by auto
  from where_bigger_mono[OF w1(1), of tol2] assms(1)
  obtain w2 where w2: "where_bigger r f_rhs tol2 = Inr w2" "set w1 \<subseteq> set w2"
    by auto
  from w1(2) w2(2) have ne2: "w2 \<noteq> []" by auto
  have ne: "g ` set w1 \<noteq> {}" for g :: "idx \<Rightarrow> nat" using w1(2) by simp
  have sub: "g ` set w1 \<subseteq> g ` set w2" for g :: "idx \<Rightarrow> nat" using w2(2) by blast
  have mn: "Min (g ` set w2) \<le> Min (g ` set w1)" for g :: "idx \<Rightarrow> nat"
    by (rule Min_antimono[OF sub ne]) simp
  have mx: "Max (g ` set w1) \<le> Max (g ` set w2)" for g :: "idx \<Rightarrow> nat"
    by (rule Max_mono[OF sub ne]) simp
  have len: "Max (g ` set w1) - Min (g ` set w1) + 1 \<le> Max (g ` set w2) - Min (g ` set w2) + 1"
    for g :: "idx \<Rightarrow> nat"
    using mn[of g] mx[of g] by linarith
  have bb2: "bounding_box r f_rhs tol2 =
      Inr ((Min (fst ` set w2), Max (fst ` set w2)),
           (Min ((fst \<circ> snd) ` set w2), Max ((fst \<circ> snd) ` set w2)),
           (Min ((snd \<circ> snd) ` set w2), Max ((snd \<circ> snd) ` set w2)))"
    unfolding bounding_box_eq using w2(1) ne2 by simp
  have vol: "(x1 - x0 + 1) * (y1 - y0 + 1) * (z1 - z0 + 1)
      \<le> (Max (fst ` set w2) - Min (fst ` set w2) + 1)
        * (Max ((fst \<circ> snd) ` set w2) - Min ((fst \<circ> snd) ` set w2) + 1)
        * (Max ((snd \<circ> snd) ` set w2) - Min ((snd \<circ> snd) ` set w2) + 1)"
    unfolding b1 by (intro mult_le_mono len)
  show ?thesis
    using bb2 vol mn mx unfolding b1 by blast
qed


theorem C6_bounding_box_monotone_witness:
  "(1 / 8 :: real) < 1 / 2
   \<and> bounding_box \<lparr>dimL = 3, dimM = 1, dimN = 1, coord = (\<lambda>p c. 0)\<rparr>
        (\<lambda>(i, j, k). if i = 1 then 4 else 1) (1 / 2) = Inr ((1, 1), (0, 0), (0, 0))
   \<and> (\<exists>x0' x1' y0' y1' z0' z1'.
         bounding_box \<lparr>dimL = 3, dimM = 1, dimN = 1, coord = (\<lambda>p c. 0)\<rparr>
           (\<lambda>(i, j, k). if i = 1 then 4 else 1) (1 / 8)
           = Inr ((x0', x1'), (y0', y1'), (z0', z1'))
         \<and> x0' \<le> 1 \<and> 1 \<le> x1' \<and> y0' \<le> 0 \<and> 0 \<le> y1' \<and> z0' \<le> 0 \<and> 0 \<le> z1'
         \<and> (1 - 1 + 1) * (0 - 0 + 1) * (0 - 0 + 1)
             \<le> (x1' - x0' + 1) * (y1' - y0' + 1) * (z1' - z0' + 1))"
proof -
  have t: "(1 / 8 :: real) < 1 / 2" by simp
  have b: "bounding_box \<lparr>dimL = 3, dimM = 1, dimN = 1, coord = (\<lambda>p c. 0)\<rparr>
        (\<lambda>(i, j, k). if i = 1 then 4 else 1) (1 / 2) = Inr ((1, 1), (0, 0), (0, 0))"
    by (simp add: bounding_box_def where_bigger_def indices_3_1_1 np_max_def np_min_def
        ebind_def)
  from C6_bounding_box_monotone [OF t b] t b show ?thesis by blast
qed

subsection \<open>The trimmed source\<close>

text \<open>
  C5 at a source of shape \<open>(2, 2, 2)\<close> that is 1 everywhere, with tolerance \<open>1/2\<close>:
  the box is the whole array, \<open>0..1\<close> on each axis, and the source is 1 at voxel
  \<open>(1, 1, 1)\<close>, inside the box at the maximal index of each axis; the trimmed array is 0
  there. The half-open slices \<^verbatim>\<open>min_x_idx:max_x_idx\<close> leave the maximal index out.
\<close>

theorem C5_trim_drops_max_index:
  "bounding_box \<lparr>dimL = 2, dimM = 2, dimN = 2, coord = (\<lambda>p c. 0)\<rparr> (\<lambda>p. 1) (1 / 2)
       = Inr ((0, 1), (0, 1), (0, 1))
   \<and> (case restrict_domain [\<lambda>p. 1] 0 (1 / 2)
              \<lparr>dimL = 2, dimM = 2, dimN = 2, coord = (\<lambda>p c. 0)\<rparr> of
         Inl e \<Rightarrow> False
       | Inr ((xMin, xMax, yMin, yMax, P_trim), h') \<Rightarrow>
           (h' ! 0) (1, 1, 1) = 1 \<and> (h' ! P_trim) (1, 1, 1) = 0
           \<and> (h' ! P_trim) (0, 0, 0) = 1)"
  by (simp add: restrict_domain_def bounding_box_def where_bigger_def indices_2_2_2
      np_max_def np_min_def ebind_def alloc_def slice_assign_def)

subsection \<open>The convergence study and the cascade state\<close>

lemma convergence_loop_frame:
  "convergence_loop mvp r a tols h = Inr (recs, h') \<Longrightarrow> \<exists>ext. h' = h @ ext"
proof (induction tols arbitrary: h recs h')
  case Nil
  then show ?case by simp
next
  case (Cons tol tols)
  from Cons.prems obtain res h1 where rd: "restrict_domain h a tol r = Inr (res, h1)"
    and rest: "(case res of (xMin, xMax, yMin, yMax, P_trim) \<Rightarrow>
         let (h2, xInVec) = alloc h1 (h1 ! P_trim);
             (h3, xOut) = alloc h2 (mvp (h2 ! xInVec));
             ny_centre = dimM r div 2;
             nz_centre = dimN r div 2;
             line = map (\<lambda>i. (h3 ! xOut) (i, ny_centre, nz_centre)) [0..<dimL r];
             rc = \<lparr>rec_tol = tol, rec_xMin = xMin, rec_xMax = xMax,
                    rec_yMin = yMin, rec_yMax = yMax, rec_line = line\<rparr>
         in ebind (convergence_loop mvp r a tols h3) (\<lambda>(recs, h').
              Inr (rc # recs, h'))) = Inr (recs, h')"
    by (auto simp: ebind_eq_Inr)
  obtain xMin xMax yMin yMax P_trim where res: "res = (xMin, xMax, yMin, yMax, P_trim)"
    by (cases res) auto
  from rd res obtain e1 where h1: "h1 = h @ e1"
    by (auto simp: restrict_domain_eq)
  from rest res obtain recs' where
    "convergence_loop mvp r a tols ((h1 @ [h1 ! P_trim]) @ [mvp ((h1 @ [h1 ! P_trim]) ! length h1)])
       = Inr (recs', h')"
    by (auto simp: alloc_def Let_def ebind_eq_Inr)
  from Cons.IH[OF this] obtain e2 where
    "h' = ((h1 @ [h1 ! P_trim]) @ [mvp ((h1 @ [h1 ! P_trim]) ! length h1)]) @ e2" by blast
  with h1 show ?case by simp
qed

lemma convergence_domain_size_frame:
  assumes "convergence_domain_size h a mvp r = Inr (res, h')"
  shows "length h \<le> length h' \<and> (\<forall>b<length h. h' ! b = h ! b)"
proof -
  from assms obtain recs where "convergence_loop mvp r a TOL h = Inr (recs, h')"
    by (auto simp: convergence_domain_size_def ebind_eq_Inr)
  from convergence_loop_frame[OF this] obtain ext where "h' = h @ ext" by blast
  then show ?thesis by (simp add: nth_append)
qed

lemma where_bigger_eq:
  "where_bigger r f tol = Inr wb \<longleftrightarrow>
     indices (dimL r) (dimM r) (dimN r) \<noteq> [] \<and>
     wb = filter (\<lambda>p. Max (set (map (\<lambda>p. cmod (f p)) (indices (dimL r) (dimM r) (dimN r)))) \<noteq> 0
                   \<and> cmod (f p) / Max (set (map (\<lambda>p. cmod (f p)) (indices (dimL r) (dimM r) (dimN r)))) > tol)
            (indices (dimL r) (dimM r) (dimN r))"
  by (auto simp: where_bigger_def ebind_eq_Inr np_max_eq)

lemma bounding_box_total:
  assumes "tol < 1" "p \<in> set (indices (dimL r) (dimM r) (dimN r))" "f p \<noteq> 0"
  shows "\<exists>b. bounding_box r f tol = Inr b"
proof -
  let ?I = "indices (dimL r) (dimM r) (dimN r)"
  let ?A = "set (map (\<lambda>p. cmod (f p)) ?I)"
  let ?mx = "Max ?A"
  have ne: "?I \<noteq> []" using assms(2) by auto
  have fin: "finite ?A" "?A \<noteq> {}" using ne by auto
  have "cmod (f p) \<in> ?A" using assms(2) by auto
  then have "cmod (f p) \<le> ?mx" using fin by (intro Max_ge) auto
  moreover have "0 < cmod (f p)" using assms(3) by simp
  ultimately have pos: "0 < ?mx" by linarith
  from Max_in[OF fin] obtain q where q: "q \<in> set ?I" "cmod (f q) = ?mx" by auto
  have "cmod (f q) / ?mx > tol" using q pos assms(1) by simp
  then have "q \<in> set (filter (\<lambda>p. ?mx \<noteq> 0 \<and> cmod (f p) / ?mx > tol) ?I)"
    using q pos by auto
  then have "filter (\<lambda>p. ?mx \<noteq> 0 \<and> cmod (f p) / ?mx > tol) ?I \<noteq> []"
    by (metis empty_iff empty_set)
  then show ?thesis
    unfolding bounding_box_eq where_bigger_eq using ne by blast
qed

lemma convergence_loop_total:
  assumes "\<forall>tol\<in>set tols. \<exists>b. bounding_box r (h ! a) tol = Inr b" "a < length h"
  shows "\<exists>recs h'. convergence_loop mvp r a tols h = Inr (recs, h')"
  using assms
proof (induction tols arbitrary: h)
  case Nil
  then show ?case by simp
next
  case (Cons tol tols)
  from Cons.prems obtain b where b: "bounding_box r (h ! a) tol = Inr b" by auto
  obtain x0 x1 y0 y1 z0 z1 where bb: "b = ((x0, x1), (y0, y1), (z0, z1))"
    by (metis prod.exhaust)
  define h1 where "h1 = h @ [slice_assign (\<lambda>p. 0) b ((h @ [\<lambda>p. 0]) ! a)]"
  have rd: "restrict_domain h a tol r
     = Inr ((coord r (x0, 0, 0) 0, coord r (x1, 0, 0) 0, coord r (0, y0, 0) 1,
             coord r (0, y1, 0) 1, length h), h1)"
    unfolding restrict_domain_eq using b bb by (simp add: h1_def)
  define h3 where "h3 = (h1 @ [h1 ! length h]) @ [mvp ((h1 @ [h1 ! length h]) ! length h1)]"
  have "h3 ! a = h ! a" "a < length h3"
    using Cons.prems(2) by (simp_all add: h3_def h1_def nth_append)
  with Cons.prems(1) have "\<forall>tol\<in>set tols. \<exists>b. bounding_box r (h3 ! a) tol = Inr b" by simp
  from Cons.IH[OF this \<open>a < length h3\<close>] obtain recs h' where
    "convergence_loop mvp r a tols h3 = Inr (recs, h')" by blast
  then show ?case
    by (simp add: rd ebind_simps alloc_def Let_def h3_def)
qed

lemma TOL_lt_one: "\<forall>tol\<in>set TOL. tol < 1"
proof -
  have "10 powr e < (1::real)" if "e < 0" for e :: real
    using that powr_less_cancel_iff[of 10 e 0] by simp
  then show ?thesis by (simp add: TOL_def)
qed

lemma convergence_domain_size_total:
  assumes "p \<in> set (indices (dimL r) (dimM r) (dimN r))" "(h ! a) p \<noteq> 0" "a < length h"
  shows "\<exists>res h'. convergence_domain_size h a mvp r = Inr (res, h')"
proof -
  have "\<forall>tol\<in>set TOL. \<exists>b. bounding_box r (h ! a) tol = Inr b"
    using TOL_lt_one bounding_box_total[of _ p r "h ! a"] assms(1,2) by blast
  from convergence_loop_total[OF this assms(3)] obtain recs h' where
    "convergence_loop mvp r a TOL h = Inr (recs, h')" by blast
  then show ?thesis by (simp add: convergence_domain_size_def ebind_simps)
qed

lemma bounding_box_zero_source:
  assumes z: "\<forall>p\<in>set (indices (dimL r) (dimM r) (dimN r)). f p = 0"
  shows "bounding_box r f tol = Inl ValueError"
proof (cases "indices (dimL r) (dimM r) (dimN r)")
  case Nil
  then show ?thesis
    by (simp add: bounding_box_def where_bigger_def np_max_def ebind_simps)
next
  case (Cons q qs)
  let ?I = "indices (dimL r) (dimM r) (dimN r)"
  have m: "map (\<lambda>p. cmod (f p)) ?I = map (\<lambda>p. 0) ?I"
    using z by (intro map_cong) auto
  have "set (map (\<lambda>p. 0::real) ?I) = {0}"
    using Cons by auto
  then have "Max (set (map (\<lambda>p. cmod (f p)) ?I)) = 0"
    unfolding m by simp
  then have mx: "np_max (map (\<lambda>p. cmod (f p)) ?I) = Inr 0"
    using Cons by (simp add: np_max_eq)
  show ?thesis
    by (simp add: bounding_box_def where_bigger_def mx ebind_simps np_min_def)
qed

lemma convergence_domain_size_zero_source:
  assumes "\<forall>p\<in>set (indices (dimL r) (dimM r) (dimN r)). (h ! a) p = 0"
  shows "convergence_domain_size h a mvp r = Inl ValueError"
  using bounding_box_zero_source[OF assms]
  by (simp add: convergence_domain_size_def TOL_def restrict_domain_def ebind_simps)


lemma dc_step_Inr:
  assumes "xIn_dc beta omega rho c i_harm (map (\<lambda>a. hp s ! a) (P_slots s)) = Inr v"
    "case v of Some a \<Rightarrow> h1 = hp s @ [a] \<and> xa = length (hp s)
             | None \<Rightarrow> h1 = hp s \<and> xIn_var s = Some xa"
    "convergence_domain_size (h1 @ [h1 ! xa]) xa (mvp i_harm) r = Inr (res, h3)"
    "i_harm < length (P_slots s)"
  shows "dc_step beta omega rho c mvp r i_harm s
     = Inr (s\<lparr>hp := h3[P_slots s ! i_harm := mvp i_harm (h3 ! length h1)], xIn_var := Some xa\<rparr>)"
  using assms by (cases v) (auto simp: dc_step_def ebind_simps alloc_def)

lemma indices_1_1_1: "indices (Suc 0) (Suc 0) (Suc 0) = [(0, 0, 0)]"
  by (simp add: indices_def)

lemma dc_step_eq:
  assumes step: "dc_step beta omega rho c mvp r i_harm s = Inr s'"
  obtains v h1 xa res h3 where
    "xIn_dc beta omega rho c i_harm (map (\<lambda>a. hp s ! a) (P_slots s)) = Inr v"
    "case v of Some a \<Rightarrow> h1 = hp s @ [a] \<and> xa = length (hp s)
             | None \<Rightarrow> h1 = hp s \<and> xIn_var s = Some xa"
    "convergence_domain_size (h1 @ [h1 ! xa]) xa (mvp i_harm) r = Inr (res, h3)"
    "i_harm < length (P_slots s)"
    "s' = s\<lparr>hp := h3[P_slots s ! i_harm := mvp i_harm (h3 ! length h1)], xIn_var := Some xa\<rparr>"
proof -
  from step obtain v where
    lad: "xIn_dc beta omega rho c i_harm (map (\<lambda>a. hp s ! a) (P_slots s)) = Inr v"
    and rest: "(let (h1, x) = (case v of
                        Some a \<Rightarrow> (let (h, p) = alloc (hp s) a in (h, Some p))
                      | None \<Rightarrow> (hp s, xIn_var s))
       in case x of
            None \<Rightarrow> Inl NameError
          | Some xIn \<Rightarrow>
              let (h2, xInVec) = alloc h1 (h1 ! xIn)
              in ebind (convergence_domain_size h2 xIn (mvp i_harm) r) (\<lambda>(xMinVals, h3).
                   if i_harm < length (P_slots s)
                   then Inr (s\<lparr>hp := h3[P_slots s ! i_harm := mvp i_harm (h3 ! xInVec)],
                                xIn_var := x\<rparr>)
                   else Inl IndexError)) = Inr s'"
    unfolding dc_step_def ebind_eq_Inr by blast
  show thesis
  proof (cases v)
    case None
    with rest obtain xa where x: "xIn_var s = Some xa"
      by (cases "xIn_var s") auto
    from rest None x obtain res h3 where
      "convergence_domain_size (hp s @ [hp s ! xa]) xa (mvp i_harm) r = Inr (res, h3)"
      "i_harm < length (P_slots s)"
      "s' = s\<lparr>hp := h3[P_slots s ! i_harm := mvp i_harm (h3 ! length (hp s))],
               xIn_var := Some xa\<rparr>"
      by (auto simp: alloc_def ebind_eq_Inr split: if_splits)
    with lad None x show thesis by (intro that[of v "hp s" xa res h3]) auto
  next
    case (Some a)
    from rest Some obtain res h3 where
      "convergence_domain_size ((hp s @ [a]) @ [(hp s @ [a]) ! length (hp s)]) (length (hp s))
         (mvp i_harm) r = Inr (res, h3)"
      "i_harm < length (P_slots s)"
      "s' = s\<lparr>hp := h3[P_slots s ! i_harm := mvp i_harm (h3 ! length (hp s @ [a]))],
               xIn_var := Some (length (hp s))\<rparr>"
      by (auto simp: alloc_def ebind_eq_Inr split: if_splits)
    with lad Some show thesis by (intro that[of v "hp s @ [a]" "length (hp s)" res h3]) auto
  qed
qed

lemma dc_step_without_study_eq:
  assumes "xIn_dc beta omega rho c i_harm (map (\<lambda>a. hp s ! a) (P_slots s)) = Inr v"
    "case v of Some a \<Rightarrow> h1 = hp s @ [a] \<and> xa = length (hp s)
             | None \<Rightarrow> h1 = hp s \<and> xIn_var s = Some xa"
    "i_harm < length (P_slots s)"
  shows "dc_step_without_study beta omega rho c mvp r i_harm s
     = Inr (s\<lparr>hp := (h1 @ [h1 ! xa])[P_slots s ! i_harm := mvp i_harm ((h1 @ [h1 ! xa]) ! length h1)],
              xIn_var := Some xa\<rparr>)"
  using assms by (cases v) (auto simp: dc_step_without_study_def ebind_simps alloc_def)


lemma dc_step_example:
  "\<exists>s'. dc_step 1 1 1 1 (\<lambda>i f. f) \<lparr>dimL = 1, dimM = 1, dimN = 1, coord = (\<lambda>p c. 0)\<rparr> 1
           \<lparr>hp = [\<lambda>p. 1, \<lambda>p. 0], P_slots = [0, 1], xIn_var = None\<rparr> = Inr s'"
proof -
  let ?r = "\<lparr>dimL = 1, dimM = 1, dimN = 1, coord = (\<lambda>p c. 0)\<rparr>"
  let ?s = "\<lparr>hp = [\<lambda>p. 1, \<lambda>p. 0], P_slots = [0, 1], xIn_var = None\<rparr>"
  let ?x = "\<lambda>p::idx. - 2 :: complex"
  have lad: "xIn_dc 1 1 1 1 1 (map (\<lambda>a. hp ?s ! a) (P_slots ?s)) = Inr (Some ?x)"
    by (simp add: xIn_dc_def source_scalar_def getP_def ebind_simps)
  have "\<exists>res h'. convergence_domain_size ((hp ?s @ [?x]) @ [(hp ?s @ [?x]) ! length (hp ?s)])
           (length (hp ?s)) ((\<lambda>i f. f) 1) ?r = Inr (res, h')"
    by (rule convergence_domain_size_total[where p = "(0, 0, 0)"]) (simp_all add: indices_1_1_1)
  then obtain res h3 where st: "convergence_domain_size
      ((hp ?s @ [?x]) @ [(hp ?s @ [?x]) ! length (hp ?s)])
           (length (hp ?s)) ((\<lambda>i f. f) 1) ?r = Inr (res, h3)" by blast
  have "dc_step 1 1 1 1 (\<lambda>i f. f) ?r 1 ?s
     = Inr (?s\<lparr>hp := h3[P_slots ?s ! 1 := (\<lambda>i f. f) 1 (h3 ! length (hp ?s @ [?x]))],
               xIn_var := Some (length (hp ?s))\<rparr>)"
    by (rule dc_step_Inr[OF lad _ st]) simp_all
  then show ?thesis by blast
qed


text \<open>
  C10, as stated, fails: when the incident field is zero everywhere, the source term of
  order 1 is zero, \<^verbatim>\<open>rel_p\<close> has no entry above any tolerance, and \<^verbatim>\<open>np.min\<close> in
  \<^verbatim>\<open>restrict_domain\<close> raises \<^verbatim>\<open>ValueError\<close>: the pass aborts inside the study,
  before \<^verbatim>\<open>P[i_harm]\<close> is assigned, while the same pass without the study completes
  and stores a field.
\<close>

theorem C10_counterexample:
  "dc_step 1 1 1 1 example_mvp unit_grid 1 zero_dc_state = Inl ValueError
   \<and> \<not> isl (dc_step_without_study 1 1 1 1 example_mvp unit_grid 1 zero_dc_state)
   \<and> hp (projr (dc_step_without_study 1 1 1 1 example_mvp unit_grid 1 zero_dc_state))
        ! (P_slots zero_dc_state ! 1) = (\<lambda>p. 0)"
  by (simp add: dc_step_def dc_step_without_study_def xIn_dc_def source_scalar_def getP_def
      ebind_simps alloc_def zero_dc_state_def convergence_domain_size_def TOL_def
      restrict_domain_def bounding_box_def where_bigger_def unit_grid_def indices_1_1_1
      np_max_def np_min_def example_mvp_def)

text \<open>
  C10, amended: in every pass of the harmonic loop in which the convergence study
  completes, the study does not affect the cascade state. It runs on a heap \<open>h2\<close> that
  holds the source term \<open>xIn\<close>, its copy \<open>xInVec\<close> and every slot of \<open>P\<close>, and returns
  a heap \<open>h3\<close> that agrees with \<open>h2\<close> on every array that existed before it ran
  (\<^verbatim>\<open>restrict_domain\<close> and \<^verbatim>\<open>convergence_domain_size\<close> only write to arrays they
  create). The field then stored at \<open>P[i_harm]\<close> is \<open>mvp\<close> of the full source vector
  as it was before the study, every other slot of \<open>P\<close> keeps its contents, and the
  pass without the study completes too, with the same binding of \<open>xIn\<close> and the same
  contents in every slot of \<open>P\<close>.
\<close>

theorem C10_study_leaves_cascade_state:
  assumes step: "dc_step beta omega rho c mvp r i_harm s = Inr s'"
    and slots: "\<forall>a\<in>set (P_slots s). a < length (hp s)" "distinct (P_slots s)"
    and bound: "\<forall>a. xIn_var s = Some a \<longrightarrow> a < length (hp s)"
  shows "(\<exists>h2 xIn xInVec res h3.
      convergence_domain_size h2 xIn (mvp i_harm) r = Inr (res, h3)
    \<and> xIn < length h2 \<and> xInVec < length h2 \<and> (\<forall>a\<in>set (P_slots s). a < length h2)
    \<and> (\<forall>a<length h2. h3 ! a = h2 ! a)
    \<and> (\<forall>a<length (hp s). h2 ! a = hp s ! a)
    \<and> h2 ! xInVec = h2 ! xIn
    \<and> xIn_var s' = Some xIn
    \<and> i_harm < length (P_slots s)
    \<and> hp s' = h3[P_slots s ! i_harm := mvp i_harm (h2 ! xInVec)]
    \<and> hp s' ! (P_slots s ! i_harm) = mvp i_harm (h2 ! xIn)
    \<and> (\<forall>j<length (P_slots s). j \<noteq> i_harm \<longrightarrow>
          hp s' ! (P_slots s ! j) = hp s ! (P_slots s ! j)))
    \<and> (\<exists>s''. dc_step_without_study beta omega rho c mvp r i_harm s = Inr s''
          \<and> xIn_var s'' = xIn_var s'
          \<and> hp s'' ! (P_slots s ! i_harm) = hp s' ! (P_slots s ! i_harm)
          \<and> (\<forall>j<length (P_slots s).
                hp s'' ! (P_slots s ! j) = hp s' ! (P_slots s ! j)))"
proof -
  from step obtain v h1 xa res h3 where
    lad: "xIn_dc beta omega rho c i_harm (map (\<lambda>a. hp s ! a) (P_slots s)) = Inr v"
    and h1: "case v of Some a \<Rightarrow> h1 = hp s @ [a] \<and> xa = length (hp s)
             | None \<Rightarrow> h1 = hp s \<and> xIn_var s = Some xa"
    and study: "convergence_domain_size (h1 @ [h1 ! xa]) xa (mvp i_harm) r = Inr (res, h3)"
    and i: "i_harm < length (P_slots s)"
    and s': "s' = s\<lparr>hp := h3[P_slots s ! i_harm := mvp i_harm (h3 ! length h1)],
                    xIn_var := Some xa\<rparr>"
    by (rule dc_step_eq)
  define h2 where "h2 = h1 @ [h1 ! xa]"
  have ext: "\<exists>e. h1 = hp s @ e" and xa: "xa < length h1"
    using h1 bound by (auto split: option.splits)
  then obtain e where e: "h1 = hp s @ e" by blast
  have len: "length (hp s) \<le> length h1" "length h1 < length h2" using e by (simp_all add: h2_def)
  from convergence_domain_size_frame[OF study]
  have fr: "length h2 \<le> length h3" "\<forall>b<length h2. h3 ! b = h2 ! b"
    by (simp_all add: h2_def)
  have old: "\<forall>a<length (hp s). h2 ! a = hp s ! a"
    by (simp add: h2_def e nth_append)
  have vec: "h2 ! length h1 = h2 ! xa"
    using xa by (simp add: h2_def nth_append)
  have v3: "h3 ! length h1 = h2 ! length h1" using fr len by simp
  have pi: "P_slots s ! i_harm < length h3"
    using slots(1) i len fr by (metis nth_mem order_less_le_trans order_less_trans)
  have upd: "hp s' ! (P_slots s ! i_harm) = mvp i_harm (h2 ! xa)"
    using pi by (simp add: s' v3 vec)
  have others: "hp s' ! (P_slots s ! j) = hp s ! (P_slots s ! j)"
    if j: "j < length (P_slots s)" "j \<noteq> i_harm" for j
  proof -
    have ne: "P_slots s ! j \<noteq> P_slots s ! i_harm"
      using slots(2) j i by (simp add: nth_eq_iff_index_eq)
    have lt: "P_slots s ! j < length (hp s)" using slots(1) j by simp
    then have "h3 ! (P_slots s ! j) = hp s ! (P_slots s ! j)"
      using fr len old by simp
    then show ?thesis using ne by (simp add: s')
  qed
  have slots2: "\<forall>a\<in>set (P_slots s). a < length h2"
    using slots(1) len by force
  define t where "t = s\<lparr>hp := h2[P_slots s ! i_harm := mvp i_harm (h2 ! length h1)],
                           xIn_var := Some xa\<rparr>"
  have ws: "dc_step_without_study beta omega rho c mvp r i_harm s = Inr t"
    unfolding t_def h2_def by (rule dc_step_without_study_eq[OF lad h1 i])
  have pi2: "P_slots s ! i_harm < length h2"
    using slots2 i by simp
  have tupd: "hp t ! (P_slots s ! i_harm) = mvp i_harm (h2 ! xa)"
    using pi2 by (simp add: t_def vec)
  have tothers: "hp t ! (P_slots s ! j) = hp s ! (P_slots s ! j)"
    if j: "j < length (P_slots s)" "j \<noteq> i_harm" for j
  proof -
    have ne: "P_slots s ! j \<noteq> P_slots s ! i_harm"
      using slots(2) j i by (simp add: nth_eq_iff_index_eq)
    have lt: "P_slots s ! j < length (hp s)" using slots(1) j by simp
    then have "h2 ! (P_slots s ! j) = hp s ! (P_slots s ! j)"
      using old by simp
    then show ?thesis using ne by (simp add: t_def)
  qed
  have same: "hp t ! (P_slots s ! j) = hp s' ! (P_slots s ! j)"
    if j: "j < length (P_slots s)" for j
  proof (cases "j = i_harm")
    case True
    then show ?thesis using upd tupd by simp
  next
    case False
    then show ?thesis using others[OF j] tothers[OF j] by simp
  qed
  have cf: "\<exists>s''. dc_step_without_study beta omega rho c mvp r i_harm s = Inr s''
          \<and> xIn_var s'' = xIn_var s'
          \<and> hp s'' ! (P_slots s ! i_harm) = hp s' ! (P_slots s ! i_harm)
          \<and> (\<forall>j<length (P_slots s).
                hp s'' ! (P_slots s ! j) = hp s' ! (P_slots s ! j))"
  proof -
    have "xIn_var t = xIn_var s'" by (simp add: t_def s')
    with ws same same[OF i] show ?thesis by blast
  qed
  have main: "\<exists>h2 xIn xInVec res h3.
      convergence_domain_size h2 xIn (mvp i_harm) r = Inr (res, h3)
    \<and> xIn < length h2 \<and> xInVec < length h2 \<and> (\<forall>a\<in>set (P_slots s). a < length h2)
    \<and> (\<forall>a<length h2. h3 ! a = h2 ! a)
    \<and> (\<forall>a<length (hp s). h2 ! a = hp s ! a)
    \<and> h2 ! xInVec = h2 ! xIn
    \<and> xIn_var s' = Some xIn
    \<and> i_harm < length (P_slots s)
    \<and> hp s' = h3[P_slots s ! i_harm := mvp i_harm (h2 ! xInVec)]
    \<and> hp s' ! (P_slots s ! i_harm) = mvp i_harm (h2 ! xIn)
    \<and> (\<forall>j<length (P_slots s). j \<noteq> i_harm \<longrightarrow>
          hp s' ! (P_slots s ! j) = hp s ! (P_slots s ! j))"
    apply (rule exI[of _ h2], rule exI[of _ xa], rule exI[of _ "length h1"],
           rule exI[of _ res], rule exI[of _ h3])
    using study fr old vec upd others i xa len slots2
    by (simp add: h2_def[symmetric] s' v3)
  from main cf show ?thesis by blast
qed


theorem C10_study_leaves_cascade_state_witness:
  "\<exists>s'. dc_step 1 1 1 1 (\<lambda>i f. f) \<lparr>dimL = 1, dimM = 1, dimN = 1, coord = (\<lambda>p c. 0)\<rparr> 1
           \<lparr>hp = [\<lambda>p. 1, \<lambda>p. 0], P_slots = [0, 1], xIn_var = None\<rparr> = Inr s'
     \<and> (\<exists>h2 xIn xInVec res h3.
          convergence_domain_size h2 xIn (\<lambda>f. f)
            \<lparr>dimL = 1, dimM = 1, dimN = 1, coord = (\<lambda>p c. 0)\<rparr> = Inr (res, h3)
        \<and> xIn < length h2 \<and> xInVec < length h2
        \<and> (\<forall>a<length h2. h3 ! a = h2 ! a)
        \<and> h2 ! xInVec = h2 ! xIn
        \<and> xIn_var s' = Some xIn
        \<and> hp s' ! 1 = h2 ! xIn
        \<and> hp s' ! 0 = (\<lambda>p. 1))
     \<and> (\<exists>s''. dc_step_without_study 1 1 1 1 (\<lambda>i f. f)
              \<lparr>dimL = 1, dimM = 1, dimN = 1, coord = (\<lambda>p c. 0)\<rparr> 1
              \<lparr>hp = [\<lambda>p. 1, \<lambda>p. 0], P_slots = [0, 1], xIn_var = None\<rparr> = Inr s''
          \<and> xIn_var s'' = xIn_var s' \<and> hp s'' ! 1 = hp s' ! 1)"
proof -
  let ?r = "\<lparr>dimL = 1, dimM = 1, dimN = 1, coord = (\<lambda>p c. 0)\<rparr>"
  let ?s = "\<lparr>hp = [\<lambda>p. 1, \<lambda>p. 0], P_slots = [0, 1], xIn_var = None\<rparr>"
  from dc_step_example obtain s' where
    step: "dc_step 1 1 1 1 (\<lambda>i f. f) ?r 1 ?s = Inr s'" by blast
  have w1: "\<forall>a\<in>set (P_slots ?s). a < length (hp ?s)" by simp
  have w2: "distinct (P_slots ?s)" by simp
  have w3: "\<forall>a. xIn_var ?s = Some a \<longrightarrow> a < length (hp ?s)" by simp
  from C10_study_leaves_cascade_state [OF step w1 w2 w3]
  obtain h2 xIn xInVec res h3 where
    c: "convergence_domain_size h2 xIn (\<lambda>f. f) ?r = Inr (res, h3)"
       "xIn < length h2" "xInVec < length h2" "\<forall>a<length h2. h3 ! a = h2 ! a"
       "h2 ! xInVec = h2 ! xIn" "xIn_var s' = Some xIn"
       "hp s' ! (P_slots ?s ! 1) = h2 ! xIn"
       "\<forall>j<length (P_slots ?s). j \<noteq> 1 \<longrightarrow> hp s' ! (P_slots ?s ! j) = hp ?s ! (P_slots ?s ! j)"
    by auto
  from C10_study_leaves_cascade_state [OF step w1 w2 w3]
  obtain s'' where
    d: "dc_step_without_study 1 1 1 1 (\<lambda>i f. f) ?r 1 ?s = Inr s''"
       "xIn_var s'' = xIn_var s'"
       "hp s'' ! (P_slots ?s ! 1) = hp s' ! (P_slots ?s ! 1)"
    by auto
  from d(3) have d3: "hp s'' ! 1 = hp s' ! 1" by simp
  from c(8) [rule_format, of 0] have "hp s' ! 0 = (\<lambda>p. 1)" by simp
  moreover from c(7) have "hp s' ! 1 = h2 ! xIn" by simp
  ultimately show ?thesis using step c(1-6) d(1,2) d3 by blast
qed

subsection \<open>The source-term ladders\<close>

lemma index_pairs_simps:
  "index_pairs 1 = [(0, 0)]"
  "index_pairs (Suc 0) = [(0, 0)]"
  "index_pairs 2 = [(0, 1)]"
  "index_pairs 3 = [(0, 2), (1, 1)]"
  "index_pairs 4 = [(0, 3), (1, 2)]"
  "index_pairs 5 = [(0, 4), (1, 3), (2, 2)]"
  "index_pairs 6 = [(0, 5), (1, 4), (2, 3)]"
  by (simp_all add: index_pairs_def upt_rec)

lemma source_scalar_Inr:
  "rho * c ^ 4 \<noteq> 0 \<Longrightarrow>
     source_scalar a beta omega rho c = Inr (complex_of_real (a * beta * omega ^ 2 / (rho * c ^ 4)))"
  by (simp add: source_scalar_def)

lemma xIn_dc_half_weight:
  assumes "1 \<le> n" "n \<le> 4" "n \<le> length P" "rho * c ^ 4 \<noteq> 0"
  shows "xIn_dc beta omega rho c n P
       = Inr (Some (\<lambda>p. half_weight_source_term beta omega rho c n P p))"
proof -
  note defs = xIn_dc_def source_scalar_Inr[OF assms(4)] getP_def ebind_simps
    half_weight_source_term_def pair_sum_def index_pairs_simps multiplicity_def fun_eq_iff
  from assms(1,2) consider "n = 1" | "n = 2" | "n = 3" | "n = 4" by linarith
  then show ?thesis
  proof cases
    case 1
    with assms(3) have "0 < length P" by auto
    with 1 show ?thesis by (simp add: defs)
  next
    case 2
    with assms(3) have "0 < length P" "1 < length P" by auto
    with 2 show ?thesis by (simp add: defs)
  next
    case 3
    with assms(3) have "0 < length P" "1 < length P" "2 < length P" by auto
    with 3 show ?thesis by (simp add: defs algebra_simps)
  next
    case 4
    with assms(3) have "0 < length P" "1 < length P" "2 < length P" "3 < length P" by auto
    with 4 show ?thesis by (simp add: defs algebra_simps)
  qed
qed

lemma xIn_dc_beyond: "5 \<le> n \<Longrightarrow> xIn_dc beta omega rho c n P = Inr None"
  by (simp add: xIn_dc_def)

lemma bidx_in: "i < d \<Longrightarrow> bidx d i = i"
  by (auto simp: bidx_def)

lemma broadcast2_same:
  assumes "shape a = sh" "shape b = sh"
  obtains x where "broadcast2 f a b = Inr x" "shape x = sh"
    "\<And>p. in_shape sh p \<Longrightarrow> dat x p = f (dat a p) (dat b p)"
proof -
  obtain l m n where sh: "sh = (l, m, n)" by (cases sh) auto
  let ?x = "\<lparr>shape = (l, m, n),
             dat = (\<lambda>(i, j, k). f (dat a (bidx l i, bidx m j, bidx n k))
                                   (dat b (bidx l i, bidx m j, bidx n k)))\<rparr>"
  have 1: "broadcast2 f a b = Inr ?x"
    using assms by (simp add: broadcast2_def sh bdim_def ebind_simps)
  have 2: "dat ?x p = f (dat a p) (dat b p)" if "in_shape sh p" for p
    using that by (cases p) (simp add: in_shape_def sh bidx_in)
  show thesis by (rule that[OF 1 _ 2]) (simp_all add: sh)
qed

lemmas np_mul_same = broadcast2_same[where f = "(*)", folded np_mul_def]
lemmas np_add_same = broadcast2_same[where f = "(+)", folded np_add_def]

lemma np_scale_simps: "shape (np_scale k a) = shape a" "dat (np_scale k a) p = k * dat a p"
  by (simp_all add: np_scale_def)

lemma interp_at_shape:
  assumes "interp_at ip s j = Inr Q"
  shows "\<exists>r2. hi_r2 s = Some r2 \<and> shape Q = (dimL r2, dimM r2, dimN r2)"
  using assms
  by (auto simp: interp_at_def ebind_eq_Inr split: option.splits prod.splits)

lemma xIn_hi_stored:
  assumes n: "n = 1 \<or> n = 4 \<or> n = 5 \<or> n = 6" and len: "n \<le> length (hi_P s)"
    and sh: "\<forall>j<n. shape (hi_P s ! j) = sh" and nz: "rho * c ^ 4 \<noteq> 0"
  shows "\<exists>x. xIn_hi ip beta omega rho c n s = Inr (Some x) \<and> shape x = sh
           \<and> (\<forall>p. in_shape sh p \<longrightarrow>
                dat x p = half_weight_source_term beta omega rho c n (map dat (hi_P s)) p)"
proof -
  let ?P = "hi_P s"
  note fdefs = half_weight_source_term_def pair_sum_def index_pairs_simps multiplicity_def
  note ldefs = xIn_hi_def source_scalar_Inr[OF nz] getP_def ebind_simps Let_def
  from n consider (o1) "n = 1" | (o4) "n = 4" | (o5) "n = 5" | (o6) "n = 6" by blast
  then show ?thesis
  proof cases
    case o1
    with len have l: "0 < length ?P" by auto
    from sh o1 have s0: "shape (?P ! 0) = sh" by simp
    let ?k = "complex_of_real (- 2 * beta * omega ^ 2 / (rho * c ^ 4))"
    from np_mul_same[of "np_scale ?k (?P ! 0)" sh "?P ! 0"] s0
    obtain x where x: "np_mul (np_scale ?k (?P ! 0)) (?P ! 0) = Inr x" "shape x = sh"
      "\<And>p. in_shape sh p \<Longrightarrow> dat x p = dat (np_scale ?k (?P ! 0)) p * dat (?P ! 0) p"
      by (auto simp: np_scale_simps)
    have "xIn_hi ip beta omega rho c n s = Inr (Some x)"
      using o1 l x(1) by (simp add: ldefs)
    moreover have "dat x p = half_weight_source_term beta omega rho c n (map dat ?P) p"
      if "in_shape sh p" for p
      using x(3)[OF that] o1 l by (simp add: fdefs np_scale_simps)
    ultimately show ?thesis using x(2) by blast
  next
    case o4
    with len have l: "0 < length ?P" "1 < length ?P" "2 < length ?P" "3 < length ?P" by auto
    from sh o4 have s: "shape (?P ! 0) = sh" "shape (?P ! 1) = sh" "shape (?P ! 2) = sh"
      "shape (?P ! 3) = sh" by simp_all
    let ?k = "complex_of_real (- 25 * beta * omega ^ 2 / (rho * c ^ 4))"
    from np_mul_same[OF s(1) s(4)] obtain a where a: "np_mul (?P ! 0) (?P ! 3) = Inr a"
      "shape a = sh" "\<And>p. in_shape sh p \<Longrightarrow> dat a p = dat (?P ! 0) p * dat (?P ! 3) p" by blast
    from np_mul_same[OF s(2) s(3)] obtain b where b: "np_mul (?P ! 1) (?P ! 2) = Inr b"
      "shape b = sh" "\<And>p. in_shape sh p \<Longrightarrow> dat b p = dat (?P ! 1) p * dat (?P ! 2) p" by blast
    from np_add_same[OF a(2) b(2)] obtain t where t: "np_add a b = Inr t"
      "shape t = sh" "\<And>p. in_shape sh p \<Longrightarrow> dat t p = dat a p + dat b p" by blast
    have "xIn_hi ip beta omega rho c n s = Inr (Some (np_scale ?k t))"
      using o4 l a(1) b(1) t(1) by (simp add: ldefs)
    moreover have "dat (np_scale ?k t) p
        = half_weight_source_term beta omega rho c n (map dat ?P) p"
      if "in_shape sh p" for p
      using t(3)[OF that] a(3)[OF that] b(3)[OF that] o4 l
      by (simp add: fdefs np_scale_simps algebra_simps)
    ultimately show ?thesis using t(2) by (auto simp: np_scale_simps)
  next
    case o5
    with len have l: "0 < length ?P" "1 < length ?P" "2 < length ?P" "3 < length ?P"
      "4 < length ?P" by auto
    from sh o5 have s: "shape (?P ! 0) = sh" "shape (?P ! 1) = sh" "shape (?P ! 2) = sh"
      "shape (?P ! 3) = sh" "shape (?P ! 4) = sh" by simp_all
    let ?k = "complex_of_real (- 18 * beta * omega ^ 2 / (rho * c ^ 4))"
    from np_mul_same[of "np_scale 2 (?P ! 0)" sh "?P ! 4"] s
    obtain a where a: "np_mul (np_scale 2 (?P ! 0)) (?P ! 4) = Inr a"
      "shape a = sh" "\<And>p. in_shape sh p \<Longrightarrow> dat a p = 2 * dat (?P ! 0) p * dat (?P ! 4) p"
      by (auto simp: np_scale_simps)
    from np_mul_same[of "np_scale 2 (?P ! 1)" sh "?P ! 3"] s
    obtain b where b: "np_mul (np_scale 2 (?P ! 1)) (?P ! 3) = Inr b"
      "shape b = sh" "\<And>p. in_shape sh p \<Longrightarrow> dat b p = 2 * dat (?P ! 1) p * dat (?P ! 3) p"
      by (auto simp: np_scale_simps)
    from np_add_same[OF a(2) b(2)] obtain ab where ab: "np_add a b = Inr ab"
      "shape ab = sh" "\<And>p. in_shape sh p \<Longrightarrow> dat ab p = dat a p + dat b p" by blast
    from np_mul_same[OF s(3) s(3)] obtain d where d: "np_mul (?P ! 2) (?P ! 2) = Inr d"
      "shape d = sh" "\<And>p. in_shape sh p \<Longrightarrow> dat d p = dat (?P ! 2) p * dat (?P ! 2) p" by blast
    from np_add_same[OF ab(2) d(2)] obtain t where t: "np_add ab d = Inr t"
      "shape t = sh" "\<And>p. in_shape sh p \<Longrightarrow> dat t p = dat ab p + dat d p" by blast
    have "xIn_hi ip beta omega rho c n s = Inr (Some (np_scale ?k t))"
      using o5 l a(1) b(1) ab(1) d(1) t(1) by (simp add: ldefs)
    moreover have "dat (np_scale ?k t) p
        = half_weight_source_term beta omega rho c n (map dat ?P) p"
      if "in_shape sh p" for p
      using t(3)[OF that] a(3)[OF that] b(3)[OF that] ab(3)[OF that] d(3)[OF that] o5 l
      by (simp add: fdefs np_scale_simps algebra_simps)
    ultimately show ?thesis using t(2) by (auto simp: np_scale_simps)
  next
    case o6
    with len have l: "0 < length ?P" "1 < length ?P" "2 < length ?P" "3 < length ?P"
      "4 < length ?P" "5 < length ?P" by auto
    from sh o6 have s: "shape (?P ! 0) = sh" "shape (?P ! 1) = sh" "shape (?P ! 2) = sh"
      "shape (?P ! 3) = sh" "shape (?P ! 4) = sh" "shape (?P ! 5) = sh" by simp_all
    let ?k = "complex_of_real (- 49 * beta * omega ^ 2 / (rho * c ^ 4))"
    from np_mul_same[OF s(1) s(6)] obtain a where a: "np_mul (?P ! 0) (?P ! 5) = Inr a"
      "shape a = sh" "\<And>p. in_shape sh p \<Longrightarrow> dat a p = dat (?P ! 0) p * dat (?P ! 5) p" by blast
    from np_mul_same[OF s(2) s(5)] obtain b where b: "np_mul (?P ! 1) (?P ! 4) = Inr b"
      "shape b = sh" "\<And>p. in_shape sh p \<Longrightarrow> dat b p = dat (?P ! 1) p * dat (?P ! 4) p" by blast
    from np_add_same[OF a(2) b(2)] obtain ab where ab: "np_add a b = Inr ab"
      "shape ab = sh" "\<And>p. in_shape sh p \<Longrightarrow> dat ab p = dat a p + dat b p" by blast
    from np_mul_same[OF s(3) s(4)] obtain d where d: "np_mul (?P ! 2) (?P ! 3) = Inr d"
      "shape d = sh" "\<And>p. in_shape sh p \<Longrightarrow> dat d p = dat (?P ! 2) p * dat (?P ! 3) p" by blast
    from np_add_same[OF ab(2) d(2)] obtain t where t: "np_add ab d = Inr t"
      "shape t = sh" "\<And>p. in_shape sh p \<Longrightarrow> dat t p = dat ab p + dat d p" by blast
    have "xIn_hi ip beta omega rho c n s = Inr (Some (np_scale ?k t))"
      using o6 l a(1) b(1) ab(1) d(1) t(1) by (simp add: ldefs)
    moreover have "dat (np_scale ?k t) p
        = half_weight_source_term beta omega rho c n (map dat ?P) p"
      if "in_shape sh p" for p
      using t(3)[OF that] a(3)[OF that] b(3)[OF that] ab(3)[OF that] d(3)[OF that] o6 l
      by (simp add: fdefs np_scale_simps algebra_simps)
    ultimately show ?thesis using t(2) by (auto simp: np_scale_simps)
  qed
qed

lemma xIn_hi_remapped:
  assumes n: "n = 2 \<or> n = 3" and len: "length Q = n"
    and q: "\<forall>j<n. interp_at ip s j = Inr (Q ! j)" and nz: "rho * c ^ 4 \<noteq> 0"
  shows "\<exists>x. xIn_hi ip beta omega rho c n s = Inr (Some x) \<and> shape x = shape (Q ! 0)
           \<and> (\<forall>p. in_shape (shape (Q ! 0)) p \<longrightarrow>
                dat x p = half_weight_source_term beta omega rho c n (map dat Q) p)"
proof -
  let ?sh = "shape (Q ! 0)"
  note fdefs = half_weight_source_term_def pair_sum_def index_pairs_simps multiplicity_def
  note ldefs = xIn_hi_def source_scalar_Inr[OF nz] ebind_simps Let_def
  have same: "shape (Q ! j) = ?sh" if "j < n" for j
  proof -
    from n have "0 < n" by auto
    with q have q0: "interp_at ip s 0 = Inr (Q ! 0)" by blast
    from q that have qj: "interp_at ip s j = Inr (Q ! j)" by blast
    from interp_at_shape[OF q0] obtain r2 where
      a: "hi_r2 s = Some r2" "shape (Q ! 0) = (dimL r2, dimM r2, dimN r2)" by blast
    from interp_at_shape[OF qj] obtain r2' where
      b: "hi_r2 s = Some r2'" "shape (Q ! j) = (dimL r2', dimM r2', dimN r2')" by blast
    from a(1) b(1) have "r2' = r2" by simp
    with a(2) b(2) show ?thesis by simp
  qed
  from n consider (o2) "n = 2" | (o3) "n = 3" by blast
  then show ?thesis
  proof cases
    case o2
    from q o2 have i: "interp_at ip s 0 = Inr (Q ! 0)" "interp_at ip s 1 = Inr (Q ! 1)"
      by simp_all
    from same[of 1] o2 have s1: "shape (Q ! 1) = ?sh" by simp
    let ?k = "complex_of_real (- 9 * beta * omega ^ 2 / (rho * c ^ 4))"
    from np_mul_same[of "np_scale ?k (Q ! 0)" ?sh "Q ! 1"] s1
    obtain x where x: "np_mul (np_scale ?k (Q ! 0)) (Q ! 1) = Inr x" "shape x = ?sh"
      "\<And>p. in_shape ?sh p \<Longrightarrow> dat x p = dat (np_scale ?k (Q ! 0)) p * dat (Q ! 1) p"
      by (auto simp: np_scale_simps)
    have "xIn_hi ip beta omega rho c n s = Inr (Some x)"
      using o2 i x(1) by (simp add: ldefs)
    moreover have "dat x p = half_weight_source_term beta omega rho c n (map dat Q) p"
      if "in_shape ?sh p" for p
      using x(3)[OF that] o2 len by (simp add: fdefs np_scale_simps)
    ultimately show ?thesis using x(2) by blast
  next
    case o3
    from q o3 have i: "interp_at ip s 0 = Inr (Q ! 0)" "interp_at ip s 1 = Inr (Q ! 1)"
      "interp_at ip s 2 = Inr (Q ! 2)" by simp_all
    from same[of 1] same[of 2] o3 have s: "shape (Q ! 1) = ?sh" "shape (Q ! 2) = ?sh"
      by simp_all
    let ?k = "complex_of_real (- 8 * beta * omega ^ 2 / (rho * c ^ 4))"
    from np_mul_same[OF s(1) s(1)] obtain a where a: "np_mul (Q ! 1) (Q ! 1) = Inr a"
      "shape a = ?sh" "\<And>p. in_shape ?sh p \<Longrightarrow> dat a p = dat (Q ! 1) p * dat (Q ! 1) p" by blast
    from np_mul_same[of "np_scale 2 (Q ! 0)" ?sh "Q ! 2"] s
    obtain b where b: "np_mul (np_scale 2 (Q ! 0)) (Q ! 2) = Inr b"
      "shape b = ?sh" "\<And>p. in_shape ?sh p \<Longrightarrow> dat b p = 2 * dat (Q ! 0) p * dat (Q ! 2) p"
      by (auto simp: np_scale_simps)
    from np_add_same[OF a(2) b(2)] obtain t where t: "np_add a b = Inr t"
      "shape t = ?sh" "\<And>p. in_shape ?sh p \<Longrightarrow> dat t p = dat a p + dat b p" by blast
    have "xIn_hi ip beta omega rho c n s = Inr (Some (np_scale ?k t))"
      using o3 i a(1) b(1) t(1) by (simp add: ldefs)
    moreover have "dat (np_scale ?k t) p
        = half_weight_source_term beta omega rho c n (map dat Q) p"
      if "in_shape ?sh p" for p
      using t(3)[OF that] a(3)[OF that] b(3)[OF that] o3 len
      by (simp add: fdefs np_scale_simps algebra_simps)
    ultimately show ?thesis using t(2) by (auto simp: np_scale_simps)
  qed
qed

lemma xIn_hi_beyond: "7 \<le> n \<Longrightarrow> xIn_hi ip beta omega rho c n s = Inr None"
  by (simp add: xIn_hi_def)


lemma interp_at_example:
  "j < 4 \<Longrightarrow> interp_at example_interp example_hi_state j = Inr ones"
  by (simp add: interp_at_def getP_def ebind_simps example_hi_state_def ones_def unit_grid_def
      example_interp_def nth_Cons split: nat.splits)

lemma example_hi_P: "length (hi_P example_hi_state) = 4"
  "j < 4 \<Longrightarrow> hi_P example_hi_state ! j = ones" "shape ones = (1, 1, 1)"
  by (simp_all add: example_hi_state_def ones_def nth_Cons split: nat.splits)


text \<open>
  C1: with \<open>\<beta> = \<omega> = \<rho> = c = 1\<close> the scalar in front of the quadratic source term is
  \<open>-2\<close> at order 1 (term \<open>P\<^sub>0P\<^sub>0\<close>), \<open>-9\<close> at order 2 (term \<open>P\<^sub>0P\<^sub>1\<close>), \<open>-8\<close> at order 3
  (term \<open>P\<^sub>1P\<^sub>1 + 2P\<^sub>0P\<^sub>2\<close>) and \<open>-25\<close> at order 4 (term \<open>P\<^sub>0P\<^sub>3 + P\<^sub>1P\<^sub>2\<close>), in both
  variants. In the interpolating variant the arrays multiplied at orders 2 and 3 are the
  interpolated ones, and the stored arrays must have one shape for the product to be
  the voxel-wise one.
\<close>

theorem C1_coupling_coefficients:
  "source_scalar (- 2) 1 1 1 1 = Inr (- 2) \<and> source_scalar (- 9) 1 1 1 1 = Inr (- 9)
   \<and> source_scalar (- 8) 1 1 1 1 = Inr (- 8) \<and> source_scalar (- 25) 1 1 1 1 = Inr (- 25)
   \<and> (1 \<le> length P \<longrightarrow>
        xIn_dc 1 1 1 1 1 P = Inr (Some (\<lambda>p. - 2 * (P ! 0) p * (P ! 0) p)))
   \<and> (2 \<le> length P \<longrightarrow>
        xIn_dc 1 1 1 1 2 P = Inr (Some (\<lambda>p. - 9 * (P ! 0) p * (P ! 1) p)))
   \<and> (3 \<le> length P \<longrightarrow>
        xIn_dc 1 1 1 1 3 P
          = Inr (Some (\<lambda>p. - 8 * ((P ! 1) p * (P ! 1) p + 2 * (P ! 0) p * (P ! 2) p))))
   \<and> (4 \<le> length P \<longrightarrow>
        xIn_dc 1 1 1 1 4 P
          = Inr (Some (\<lambda>p. - 25 * ((P ! 0) p * (P ! 3) p + (P ! 1) p * (P ! 2) p))))
   \<and> (1 \<le> length (hi_P s) \<longrightarrow>
        (\<exists>x. xIn_hi ip 1 1 1 1 1 s = Inr (Some x) \<and> shape x = shape (hi_P s ! 0)
           \<and> (\<forall>p. in_shape (shape (hi_P s ! 0)) p \<longrightarrow>
                 dat x p = - 2 * dat (hi_P s ! 0) p * dat (hi_P s ! 0) p)))
   \<and> (interp_at ip s 0 = Inr Q0 \<and> interp_at ip s 1 = Inr Q1 \<longrightarrow>
        (\<exists>x. xIn_hi ip 1 1 1 1 2 s = Inr (Some x) \<and> shape x = shape Q0
           \<and> (\<forall>p. in_shape (shape Q0) p \<longrightarrow> dat x p = - 9 * dat Q0 p * dat Q1 p)))
   \<and> (interp_at ip s 0 = Inr Q0 \<and> interp_at ip s 1 = Inr Q1 \<and> interp_at ip s 2 = Inr Q2 \<longrightarrow>
        (\<exists>x. xIn_hi ip 1 1 1 1 3 s = Inr (Some x) \<and> shape x = shape Q0
           \<and> (\<forall>p. in_shape (shape Q0) p \<longrightarrow>
                 dat x p = - 8 * (dat Q1 p * dat Q1 p + 2 * dat Q0 p * dat Q2 p))))
   \<and> (4 \<le> length (hi_P s) \<and> (\<forall>j<4. shape (hi_P s ! j) = sh) \<longrightarrow>
        (\<exists>x. xIn_hi ip 1 1 1 1 4 s = Inr (Some x) \<and> shape x = sh
           \<and> (\<forall>p. in_shape sh p \<longrightarrow>
                 dat x p = - 25 * (dat (hi_P s ! 0) p * dat (hi_P s ! 3) p
                                   + dat (hi_P s ! 1) p * dat (hi_P s ! 2) p))))"
proof -
  note fdefs = half_weight_source_term_def pair_sum_def index_pairs_simps multiplicity_def
  note ddefs = xIn_dc_def source_scalar_def getP_def ebind_simps
  have nz: "(1::real) * 1 ^ 4 \<noteq> 0" by simp
  have sc: "source_scalar (- 2) 1 1 1 1 = Inr (- 2) \<and> source_scalar (- 9) 1 1 1 1 = Inr (- 9)
   \<and> source_scalar (- 8) 1 1 1 1 = Inr (- 8) \<and> source_scalar (- 25) 1 1 1 1 = Inr (- 25)"
    by (simp add: source_scalar_def)
  have d1: "xIn_dc 1 1 1 1 1 P = Inr (Some (\<lambda>p. - 2 * (P ! 0) p * (P ! 0) p))"
    if "1 \<le> length P"
  proof -
    from that have "0 < length P" by auto
    then show ?thesis by (simp add: ddefs)
  qed
  have d2: "xIn_dc 1 1 1 1 2 P = Inr (Some (\<lambda>p. - 9 * (P ! 0) p * (P ! 1) p))"
    if "2 \<le> length P"
  proof -
    from that have "0 < length P" "1 < length P" by auto
    then show ?thesis by (simp add: ddefs)
  qed
  have d3: "xIn_dc 1 1 1 1 3 P
          = Inr (Some (\<lambda>p. - 8 * ((P ! 1) p * (P ! 1) p + 2 * (P ! 0) p * (P ! 2) p)))"
    if "3 \<le> length P"
  proof -
    from that have "0 < length P" "1 < length P" "2 < length P" by auto
    then show ?thesis by (simp add: ddefs)
  qed
  have d4: "xIn_dc 1 1 1 1 4 P
          = Inr (Some (\<lambda>p. - 25 * ((P ! 0) p * (P ! 3) p + (P ! 1) p * (P ! 2) p)))"
    if "4 \<le> length P"
  proof -
    from that have "0 < length P" "1 < length P" "2 < length P" "3 < length P" by auto
    then show ?thesis by (simp add: ddefs)
  qed
  have s1: "\<exists>x. xIn_hi ip 1 1 1 1 1 s = Inr (Some x) \<and> shape x = shape (hi_P s ! 0)
           \<and> (\<forall>p. in_shape (shape (hi_P s ! 0)) p \<longrightarrow>
                 dat x p = - 2 * dat (hi_P s ! 0) p * dat (hi_P s ! 0) p)"
    if a: "1 \<le> length (hi_P s)"
  proof -
    from a have l: "0 < length (hi_P s)" by auto
    have "\<exists>x. xIn_hi ip 1 1 1 1 1 s = Inr (Some x) \<and> shape x = shape (hi_P s ! 0)
           \<and> (\<forall>p. in_shape (shape (hi_P s ! 0)) p \<longrightarrow>
                 dat x p = half_weight_source_term 1 1 1 1 1 (map dat (hi_P s)) p)"
      by (rule xIn_hi_stored) (use a in simp_all)
    then obtain x where
      x: "xIn_hi ip 1 1 1 1 1 s = Inr (Some x)" "shape x = shape (hi_P s ! 0)"
        "\<forall>p. in_shape (shape (hi_P s ! 0)) p \<longrightarrow>
           dat x p = half_weight_source_term 1 1 1 1 1 (map dat (hi_P s)) p" by blast
    have f: "half_weight_source_term 1 1 1 1 1 (map dat (hi_P s)) p
        = - 2 * dat (hi_P s ! 0) p * dat (hi_P s ! 0) p" for p
      using l by (simp add: fdefs)
    from x show ?thesis unfolding f by blast
  qed
  have s4: "\<exists>x. xIn_hi ip 1 1 1 1 4 s = Inr (Some x) \<and> shape x = sh
           \<and> (\<forall>p. in_shape sh p \<longrightarrow>
                 dat x p = - 25 * (dat (hi_P s ! 0) p * dat (hi_P s ! 3) p
                                   + dat (hi_P s ! 1) p * dat (hi_P s ! 2) p))"
    if a: "4 \<le> length (hi_P s)" "\<forall>j<4. shape (hi_P s ! j) = sh"
  proof -
    from a have l: "0 < length (hi_P s)" "1 < length (hi_P s)" "2 < length (hi_P s)"
      "3 < length (hi_P s)" by auto
    from xIn_hi_stored[of 4 s sh 1 1 ip 1 1] a nz obtain x where
      x: "xIn_hi ip 1 1 1 1 4 s = Inr (Some x)" "shape x = sh"
        "\<forall>p. in_shape sh p \<longrightarrow>
           dat x p = half_weight_source_term 1 1 1 1 4 (map dat (hi_P s)) p" by auto
    have f: "half_weight_source_term 1 1 1 1 4 (map dat (hi_P s)) p
        = - 25 * (dat (hi_P s ! 0) p * dat (hi_P s ! 3) p
                  + dat (hi_P s ! 1) p * dat (hi_P s ! 2) p)" for p
      using l by (simp add: fdefs algebra_simps)
    from x show ?thesis unfolding f by blast
  qed
  have r2: "\<exists>x. xIn_hi ip 1 1 1 1 2 s = Inr (Some x) \<and> shape x = shape Q0
           \<and> (\<forall>p. in_shape (shape Q0) p \<longrightarrow> dat x p = - 9 * dat Q0 p * dat Q1 p)"
    if a: "interp_at ip s 0 = Inr Q0" "interp_at ip s 1 = Inr Q1"
  proof -
    have q: "\<forall>j<2. interp_at ip s j = Inr ([Q0, Q1] ! j)"
      using a by (auto simp: less_Suc_eq numeral_2_eq_2)
    from xIn_hi_remapped[of 2 "[Q0, Q1]" ip s 1 1 1 1] q nz obtain x where
      x: "xIn_hi ip 1 1 1 1 2 s = Inr (Some x)" "shape x = shape Q0"
        "\<forall>p. in_shape (shape Q0) p \<longrightarrow>
           dat x p = half_weight_source_term 1 1 1 1 2 (map dat [Q0, Q1]) p" by auto
    have f: "half_weight_source_term 1 1 1 1 2 (map dat [Q0, Q1]) p
        = - 9 * dat Q0 p * dat Q1 p" for p
      by (simp add: fdefs)
    from x show ?thesis unfolding f by blast
  qed
  have r3: "\<exists>x. xIn_hi ip 1 1 1 1 3 s = Inr (Some x) \<and> shape x = shape Q0
           \<and> (\<forall>p. in_shape (shape Q0) p \<longrightarrow>
                 dat x p = - 8 * (dat Q1 p * dat Q1 p + 2 * dat Q0 p * dat Q2 p))"
    if a: "interp_at ip s 0 = Inr Q0" "interp_at ip s 1 = Inr Q1" "interp_at ip s 2 = Inr Q2"
  proof -
    have q: "\<forall>j<3. interp_at ip s j = Inr ([Q0, Q1, Q2] ! j)"
      using a by (auto simp: less_Suc_eq numeral_3_eq_3 numeral_2_eq_2)
    from xIn_hi_remapped[of 3 "[Q0, Q1, Q2]" ip s 1 1 1 1] q nz obtain x where
      x: "xIn_hi ip 1 1 1 1 3 s = Inr (Some x)" "shape x = shape Q0"
        "\<forall>p. in_shape (shape Q0) p \<longrightarrow>
           dat x p = half_weight_source_term 1 1 1 1 3 (map dat [Q0, Q1, Q2]) p" by auto
    have f: "half_weight_source_term 1 1 1 1 3 (map dat [Q0, Q1, Q2]) p
        = - 8 * (dat Q1 p * dat Q1 p + 2 * dat Q0 p * dat Q2 p)" for p
      by (simp add: fdefs algebra_simps)
    from x show ?thesis unfolding f by blast
  qed
  from sc d1 d2 d3 d4 s1 s4 r2 r3 show ?thesis by blast
qed

theorem C1_coupling_coefficients_witness:
  "4 \<le> length [dat ones, dat ones, dat ones, dat ones]
   \<and> xIn_dc 1 1 1 1 3 [dat ones, dat ones, dat ones, dat ones]
        = Inr (Some (\<lambda>p. - 8 * (([dat ones, dat ones, dat ones, dat ones] ! 1) p
                                   * ([dat ones, dat ones, dat ones, dat ones] ! 1) p
                                 + 2 * ([dat ones, dat ones, dat ones, dat ones] ! 0) p
                                     * ([dat ones, dat ones, dat ones, dat ones] ! 2) p)))
   \<and> 4 \<le> length (hi_P example_hi_state)
   \<and> map shape (hi_P example_hi_state) = [(1, 1, 1), (1, 1, 1), (1, 1, 1), (1, 1, 1)]
   \<and> (\<exists>x. xIn_hi example_interp 1 1 1 1 1 example_hi_state = Inr (Some x)
         \<and> shape x = (1, 1, 1) \<and> dat x (0, 0, 0) = - 2)
   \<and> (\<exists>x. xIn_hi example_interp 1 1 1 1 4 example_hi_state = Inr (Some x)
         \<and> shape x = (1, 1, 1) \<and> dat x (0, 0, 0) = - 50)
   \<and> interp_at example_interp example_hi_state 0 = Inr ones
   \<and> interp_at example_interp example_hi_state 1 = Inr ones
   \<and> interp_at example_interp example_hi_state 2 = Inr ones
   \<and> (\<exists>x. xIn_hi example_interp 1 1 1 1 2 example_hi_state = Inr (Some x)
         \<and> shape x = (1, 1, 1) \<and> dat x (0, 0, 0) = - 9)
   \<and> (\<exists>x. xIn_hi example_interp 1 1 1 1 3 example_hi_state = Inr (Some x)
         \<and> shape x = (1, 1, 1) \<and> dat x (0, 0, 0) = - 24)"
proof -
  have h1: "4 \<le> length [dat ones, dat ones, dat ones, dat ones]" by simp
  have h2: "4 \<le> length (hi_P example_hi_state)
      \<and> (\<forall>j<4. shape (hi_P example_hi_state ! j) = (1, 1, 1))"
    by (simp add: example_hi_P)
  have h3: "interp_at example_interp example_hi_state 0 = Inr ones
      \<and> interp_at example_interp example_hi_state 1 = Inr ones
      \<and> interp_at example_interp example_hi_state 2 = Inr ones"
    by (simp add: interp_at_example)
  have h4: "map shape (hi_P example_hi_state) = [(1, 1, 1), (1, 1, 1), (1, 1, 1), (1, 1, 1)]"
    by (simp add: example_hi_state_def ones_def)
  have h5: "1 \<le> length (hi_P example_hi_state)" by (simp add: example_hi_P)
  have h6: "3 \<le> length [dat ones, dat ones, dat ones, dat ones]" by simp
  have in0: "in_shape (1, 1, 1) (0, 0, 0)" by (simp add: in_shape_def)
  have sh0: "shape (hi_P example_hi_state ! 0) = (1, 1, 1)" "shape ones = (1, 1, 1)"
    by (simp_all add: example_hi_P)
  note inst = C1_coupling_coefficients [of "[dat ones, dat ones, dat ones, dat ones]"
      example_hi_state example_interp ones ones ones "(1, 1, 1)"]
  from inst h6 have a: "xIn_dc 1 1 1 1 3 [dat ones, dat ones, dat ones, dat ones]
        = Inr (Some (\<lambda>p. - 8 * (([dat ones, dat ones, dat ones, dat ones] ! 1) p
                                   * ([dat ones, dat ones, dat ones, dat ones] ! 1) p
                                 + 2 * ([dat ones, dat ones, dat ones, dat ones] ! 0) p
                                     * ([dat ones, dat ones, dat ones, dat ones] ! 2) p)))"
    by blast
  from inst h5 obtain x1 where x1: "xIn_hi example_interp 1 1 1 1 1 example_hi_state = Inr (Some x1)"
    "shape x1 = shape (hi_P example_hi_state ! 0)"
    "\<forall>p. in_shape (shape (hi_P example_hi_state ! 0)) p \<longrightarrow>
       dat x1 p = - 2 * dat (hi_P example_hi_state ! 0) p * dat (hi_P example_hi_state ! 0) p"
    by blast
  from x1(3) in0 have x1v: "dat x1 (0, 0, 0) = - 2"
    by (simp add: example_hi_P ones_def)
  from inst h2 obtain x4 where x4: "xIn_hi example_interp 1 1 1 1 4 example_hi_state = Inr (Some x4)"
    "shape x4 = (1, 1, 1)"
    "\<forall>p. in_shape (1, 1, 1) p \<longrightarrow>
       dat x4 p = - 25 * (dat (hi_P example_hi_state ! 0) p * dat (hi_P example_hi_state ! 3) p
                         + dat (hi_P example_hi_state ! 1) p * dat (hi_P example_hi_state ! 2) p)"
    by blast
  from x4(3) in0 have x4v: "dat x4 (0, 0, 0) = - 50"
    by (simp add: example_hi_P ones_def)
  from inst h3 obtain x2 where x2: "xIn_hi example_interp 1 1 1 1 2 example_hi_state = Inr (Some x2)"
    "shape x2 = shape ones"
    "\<forall>p. in_shape (shape ones) p \<longrightarrow> dat x2 p = - 9 * dat ones p * dat ones p"
    by blast
  from x2(3) in0 have x2v: "dat x2 (0, 0, 0) = - 9"
    by (simp add: sh0) (simp add: ones_def)
  from inst h3 obtain x3 where x3: "xIn_hi example_interp 1 1 1 1 3 example_hi_state = Inr (Some x3)"
    "shape x3 = shape ones"
    "\<forall>p. in_shape (shape ones) p \<longrightarrow>
       dat x3 p = - 8 * (dat ones p * dat ones p + 2 * dat ones p * dat ones p)"
    by blast
  from x3(3) in0 have x3v: "dat x3 (0, 0, 0) = - 24"
    by (simp add: sh0) (simp add: ones_def)
  from h1 h4 h2 h3 a x1(1,2) x1v x4(1,2) x4v x2(1,2) x2v x3(1,2) x3v sh0
  show ?thesis by auto
qed

text \<open>
  C2, as stated, fails: with unit parameters and \<open>P\<^sub>0 = 1\<close> the code's source term of
  order 1 is \<open>-2\<close>, while the weight \<open>(n+1)\<^sup>2 = 4\<close> with multiplicity 1 gives \<open>-4\<close>.
\<close>

theorem C2_counterexample:
  "\<not> isl (xIn_dc 1 1 1 1 1 [dat ones])
   \<and> the (projr (xIn_dc 1 1 1 1 1 [dat ones])) (0, 0, 0) = - 2
   \<and> spec_source_term 1 1 1 1 1 [dat ones] (0, 0, 0) = - 4"
  by (simp add: xIn_dc_def source_scalar_def getP_def ebind_simps spec_source_term_def
      pair_sum_def index_pairs_simps multiplicity_def ones_def)

text \<open>
  C2, amended: for every order \<open>n\<close> of the ladder (1 to 4 in the domain-convergence
  variant, 1 to 6 in the interpolating variant) the source term is
  \<open>-\<beta>\<omega>\<^sup>2/(\<rho>c\<^sup>4)\<close> times the weight \<open>(n+1)\<^sup>2/2\<close> times the sum over the unordered
  pairs \<open>i + j = n - 1\<close> of multiplicity times the product of the two fields, the
  multiplicity being 1 if \<open>i = j\<close> and 2 otherwise. In the interpolating variant the
  fields are the stored arrays at orders 1, 4, 5, 6 and the interpolated arrays at
  orders 2 and 3.
\<close>

theorem C2_source_term_half_weight:
  "(1 \<le> n \<and> n \<le> 4 \<and> n \<le> length P \<and> rho * c ^ 4 \<noteq> 0 \<longrightarrow>
      xIn_dc beta omega rho c n P
        = Inr (Some (\<lambda>p. half_weight_source_term beta omega rho c n P p)))
   \<and> ((m = 1 \<or> m = 4 \<or> m = 5 \<or> m = 6) \<and> m \<le> length (hi_P s)
        \<and> (\<forall>j<m. shape (hi_P s ! j) = sh) \<and> rho * c ^ 4 \<noteq> 0 \<longrightarrow>
      (\<exists>x. xIn_hi ip beta omega rho c m s = Inr (Some x) \<and> shape x = sh
         \<and> (\<forall>p. in_shape sh p \<longrightarrow>
               dat x p = half_weight_source_term beta omega rho c m (map dat (hi_P s)) p)))
   \<and> ((k = 2 \<or> k = 3) \<and> length Q = k \<and> (\<forall>j<k. interp_at ip s j = Inr (Q ! j))
        \<and> rho * c ^ 4 \<noteq> 0 \<longrightarrow>
      (\<exists>x. xIn_hi ip beta omega rho c k s = Inr (Some x) \<and> shape x = shape (Q ! 0)
         \<and> (\<forall>p. in_shape (shape (Q ! 0)) p \<longrightarrow>
               dat x p = half_weight_source_term beta omega rho c k (map dat Q) p)))"
  using xIn_dc_half_weight[of n P rho c beta omega]
    xIn_hi_stored[of m s sh rho c ip beta omega]
    xIn_hi_remapped[of k Q ip s rho c beta omega]
  by blast


theorem C2_source_term_half_weight_witness:
  "xIn_dc 1 1 1 1 4 [\<lambda>p. 1, \<lambda>p. 1, \<lambda>p. 1, \<lambda>p. 1]
        = Inr (Some (\<lambda>p. half_weight_source_term 1 1 1 1 4 [\<lambda>p. 1, \<lambda>p. 1, \<lambda>p. 1, \<lambda>p. 1] p))
   \<and> (\<exists>x. xIn_hi example_interp 1 1 1 1 4 example_hi_state = Inr (Some x)
         \<and> shape x = (1, 1, 1)
         \<and> (\<forall>p. in_shape (1, 1, 1) p \<longrightarrow>
               dat x p = half_weight_source_term 1 1 1 1 4
                           (map dat (hi_P example_hi_state)) p))
   \<and> (\<exists>x. xIn_hi example_interp 1 1 1 1 3 example_hi_state = Inr (Some x)
         \<and> shape x = (1, 1, 1)
         \<and> (\<forall>p. in_shape (1, 1, 1) p \<longrightarrow>
               dat x p = half_weight_source_term 1 1 1 1 3 (map dat [ones, ones, ones]) p))
   \<and> half_weight_source_term 1 1 1 1 4 [\<lambda>p. 1, \<lambda>p. 1, \<lambda>p. 1, \<lambda>p. 1] (0, 0, 0) = - 50
   \<and> half_weight_source_term 1 1 1 1 3 (map dat [ones, ones, ones]) (0, 0, 0) = - 24"
proof -
  let ?ip = example_interp
  have h1: "(1::nat) \<le> 4 \<and> (4::nat) \<le> 4 \<and> 4 \<le> length [\<lambda>p::idx. 1::complex, \<lambda>p. 1, \<lambda>p. 1, \<lambda>p. 1]
      \<and> (1::real) * 1 ^ 4 \<noteq> 0" by simp
  have h2: "((4::nat) = 1 \<or> (4::nat) = 4 \<or> (4::nat) = 5 \<or> (4::nat) = 6)
      \<and> 4 \<le> length (hi_P example_hi_state)
      \<and> (\<forall>j<4. shape (hi_P example_hi_state ! j) = (1, 1, 1)) \<and> (1::real) * 1 ^ 4 \<noteq> 0"
    by (simp add: example_hi_P)
  have h3: "((3::nat) = 2 \<or> (3::nat) = 3) \<and> length [ones, ones, ones] = 3
      \<and> (\<forall>j<3. interp_at ?ip example_hi_state j = Inr ([ones, ones, ones] ! j))
      \<and> (1::real) * 1 ^ 4 \<noteq> 0"
    by (simp add: interp_at_example nth_Cons split: nat.splits)
  have v1: "half_weight_source_term 1 1 1 1 4 [\<lambda>p. 1, \<lambda>p. 1, \<lambda>p. 1, \<lambda>p. 1] (0, 0, 0) = - 50"
    by (simp add: half_weight_source_term_def pair_sum_def index_pairs_simps multiplicity_def)
  have v2: "half_weight_source_term 1 1 1 1 3 (map dat [ones, ones, ones]) (0, 0, 0) = - 24"
    by (simp add: half_weight_source_term_def pair_sum_def index_pairs_simps multiplicity_def
        ones_def)
  from C2_source_term_half_weight [of 4 "[\<lambda>p. 1, \<lambda>p. 1, \<lambda>p. 1, \<lambda>p. 1]" 1 1 1 1 4 example_hi_state "(1, 1, 1)" ?ip 3
      "[ones, ones, ones]"] h1 h2 h3 v1 v2
  show ?thesis by (simp add: example_hi_P)
qed


subsection \<open>Alignment of the refined mesh\<close>

lemma refine_eq:
  assumes "refine gd s = Inr s'"
  shows "hi_dx s' = hi_dx s / 2 \<and> hi_wx s' = hi_wx s / 2 \<and> hi_wy s' = hi_wy s / 2
       \<and> hi_wz s' = hi_wy s / 2
       \<and> hi_r2 s' = Some (hi_r s') \<and> hi_P s' = hi_P s \<and> interp_funs s' = interp_funs s
       \<and> hi_xIn s' = hi_xIn s
       \<and> dimL (hi_r s') = dimL (gd (hi_dx s / 2) (hi_wx s / 2) (hi_wy s / 2) (hi_wy s / 2))
       \<and> 0 < dimL (hi_r s') \<and> 0 < dimL (hi_r s)
       \<and> (\<forall>p. coord (hi_r s') p 0
              = coord (gd (hi_dx s / 2) (hi_wx s / 2) (hi_wy s / 2) (hi_wy s / 2)) p 0
                - coord (gd (hi_dx s / 2) (hi_wx s / 2) (hi_wy s / 2) (hi_wy s / 2))
                    (dimL (hi_r s') - 1, 0, 0) 0
                + coord (hi_r s) (dimL (hi_r s) - 1, 0, 0) 0 - hi_dx s / 2 - hi_dx s / 4)"
  using assms by (auto simp: refine_def Let_def split: if_splits)

lemma refine_example:
  "refine example_generatedomain example_hi_state
     = Inr (example_hi_state\<lparr>hi_r := \<lparr>dimL = 1, dimM = 1, dimN = 1,
                                        coord = (\<lambda>p c. if c = 0 then - (3 / 4) else 1 / 4)\<rparr>,
                              hi_r2 := Some \<lparr>dimL = 1, dimM = 1, dimN = 1,
                                        coord = (\<lambda>p c. if c = 0 then - (3 / 4) else 1 / 4)\<rparr>,
                              hi_dx := 1 / 2, hi_wx := 1 / 2, hi_wy := 1 / 2, hi_wz := 1 / 2\<rparr>)"
  by (simp add: refine_def example_generatedomain_def example_hi_state_def unit_grid_def
      Let_def fun_eq_iff)


text \<open>
  C7, as stated, fails: from a mesh of spacing 1 whose last voxel centre is at \<open>x = 0\<close>,
  the refined mesh has spacing \<open>1/2\<close> and its last voxel centre at \<open>x = -3/4\<close>, more than
  one new spacing away; the outer faces of the two last voxels are a whole old spacing
  apart.
\<close>

theorem C7_counterexample:
  "\<not> isl (refine example_generatedomain example_hi_state)
   \<and> hi_dx (projr (refine example_generatedomain example_hi_state)) = 1 / 2
   \<and> coord (hi_r example_hi_state) (dimL (hi_r example_hi_state) - 1, 0, 0) 0 = 0
   \<and> coord (hi_r (projr (refine example_generatedomain example_hi_state)))
        (dimL (hi_r (projr (refine example_generatedomain example_hi_state))) - 1, 0, 0) 0
       = - (3 / 4)
   \<and> \<not> \<bar>coord (hi_r (projr (refine example_generatedomain example_hi_state)))
          (dimL (hi_r (projr (refine example_generatedomain example_hi_state))) - 1, 0, 0) 0
        - coord (hi_r example_hi_state) (dimL (hi_r example_hi_state) - 1, 0, 0) 0\<bar>
        \<le> hi_dx (projr (refine example_generatedomain example_hi_state))
   \<and> \<not> \<bar>(coord (hi_r (projr (refine example_generatedomain example_hi_state)))
           (dimL (hi_r (projr (refine example_generatedomain example_hi_state))) - 1, 0, 0) 0
           + hi_dx (projr (refine example_generatedomain example_hi_state)) / 2)
        - (coord (hi_r example_hi_state) (dimL (hi_r example_hi_state) - 1, 0, 0) 0
           + hi_dx example_hi_state / 2)\<bar>
        \<le> hi_dx (projr (refine example_generatedomain example_hi_state))"
  by (simp add: refine_example) (simp add: example_hi_state_def unit_grid_def)

text \<open>
  C7, amended: after a refinement the spacing is halved, and along \<open>x\<close> the centre of the
  last voxel of the new mesh lies exactly one and a half new spacings (\<open>dx/2 + dx2/2\<close>)
  before the centre of the last voxel of the prior mesh; equivalently the far face of
  the new mesh is the far face of the prior mesh moved inwards by one prior spacing,
  that is by two new spacings.
\<close>

theorem C7_far_boundary_offset:
  assumes "refine generatedomain s = Inr s'"
  shows "hi_dx s' = hi_dx s / 2
    \<and> coord (hi_r s') (dimL (hi_r s') - 1, 0, 0) 0
        = coord (hi_r s) (dimL (hi_r s) - 1, 0, 0) 0 - 3 / 2 * hi_dx s'
    \<and> coord (hi_r s') (dimL (hi_r s') - 1, 0, 0) 0 + hi_dx s' / 2
        = (coord (hi_r s) (dimL (hi_r s) - 1, 0, 0) 0 + hi_dx s / 2) - 2 * hi_dx s'"
proof -
  from refine_eq[OF assms] have dx: "hi_dx s' = hi_dx s / 2"
    and c: "coord (hi_r s') (dimL (hi_r s') - 1, 0, 0) 0
       = coord (hi_r s) (dimL (hi_r s) - 1, 0, 0) 0 - hi_dx s / 2 - hi_dx s / 4"
    by simp_all
  show ?thesis using dx c by (simp add: field_simps)
qed


theorem C7_far_boundary_offset_witness:
  "\<exists>s'. refine example_generatedomain example_hi_state = Inr s'
     \<and> hi_dx s' = hi_dx example_hi_state / 2
     \<and> coord (hi_r s') (dimL (hi_r s') - 1, 0, 0) 0
         = coord (hi_r example_hi_state) (dimL (hi_r example_hi_state) - 1, 0, 0) 0
           - 3 / 2 * hi_dx s'
     \<and> coord (hi_r s') (dimL (hi_r s') - 1, 0, 0) 0 + hi_dx s' / 2
         = (coord (hi_r example_hi_state) (dimL (hi_r example_hi_state) - 1, 0, 0) 0
            + hi_dx example_hi_state / 2) - 2 * hi_dx s'"
proof -
  from refine_example obtain s' where
    r: "refine example_generatedomain example_hi_state = Inr s'" by blast
  from C7_far_boundary_offset [OF r] r show ?thesis by blast
qed

subsection \<open>Orders beyond the ladder\<close>

lemma dc_step_beyond_table:
  assumes step: "dc_step beta omega rho c mvp r i_harm s = Inr s'" and i: "5 \<le> i_harm"
    and slots: "\<forall>a\<in>set (P_slots s). a < length (hp s)"
  shows "\<exists>xa. xIn_var s = Some xa \<and> xIn_var s' = Some xa
           \<and> hp s' ! (P_slots s ! i_harm) = mvp i_harm (hp s ! xa)"
proof -
  from step obtain v h1 xa res h3 where
    lad: "xIn_dc beta omega rho c i_harm (map (\<lambda>a. hp s ! a) (P_slots s)) = Inr v"
    and h1: "case v of Some a \<Rightarrow> h1 = hp s @ [a] \<and> xa = length (hp s)
             | None \<Rightarrow> h1 = hp s \<and> xIn_var s = Some xa"
    and study: "convergence_domain_size (h1 @ [h1 ! xa]) xa (mvp i_harm) r = Inr (res, h3)"
    and il: "i_harm < length (P_slots s)"
    and s': "s' = s\<lparr>hp := h3[P_slots s ! i_harm := mvp i_harm (h3 ! length h1)],
                    xIn_var := Some xa\<rparr>"
    by (rule dc_step_eq)
  from lad i have "v = None" by (simp add: xIn_dc_beyond)
  with h1 have h: "h1 = hp s" and x: "xIn_var s = Some xa" by simp_all
  from convergence_domain_size_frame[OF study] h
  have fr: "Suc (length (hp s)) \<le> length h3"
    "\<forall>b<Suc (length (hp s)). h3 ! b = (hp s @ [hp s ! xa]) ! b" by simp_all
  from fr(2) have v3: "h3 ! length (hp s) = hp s ! xa" by simp
  from slots il have "P_slots s ! i_harm < length (hp s)" by simp
  with fr(1) have "P_slots s ! i_harm < length h3" by simp
  then have "hp s' ! (P_slots s ! i_harm) = mvp i_harm (hp s ! xa)"
    by (simp add: s' h v3)
  with x s' show ?thesis by simp
qed

lemma dc_step_order5_total:
  "\<exists>s'. dc_step 1 1 1 1 example_mvp unit_grid 5 example_dc_state = Inr s'"
proof -
  let ?s = example_dc_state
  have lad: "xIn_dc 1 1 1 1 5 (map (\<lambda>a. hp ?s ! a) (P_slots ?s)) = Inr None"
    by (simp add: xIn_dc_beyond)
  have "\<exists>res h'. convergence_domain_size (hp ?s @ [hp ?s ! 6]) 6 (example_mvp 5) unit_grid
      = Inr (res, h')"
    by (rule convergence_domain_size_total[where p = "(0, 0, 0)"])
      (simp_all add: unit_grid_def indices_1_1_1 example_dc_state_def ones_def)
  then obtain res h3 where st: "convergence_domain_size (hp ?s @ [hp ?s ! 6]) 6 (example_mvp 5)
      unit_grid = Inr (res, h3)" by blast
  have "dc_step 1 1 1 1 example_mvp unit_grid 5 ?s
     = Inr (?s\<lparr>hp := h3[P_slots ?s ! 5 := example_mvp 5 (h3 ! length (hp ?s))],
               xIn_var := Some 6\<rparr>)"
    using dc_step_Inr[where s = ?s and v = None and ?h1.0 = "hp ?s" and xa = 6
        and mvp = example_mvp and i_harm = 5 and r = unit_grid and res = res and ?h3.0 = h3
        and beta = 1 and omega = 1 and rho = 1 and c = 1] lad st
    by (simp add: example_dc_state_def)
  then show ?thesis by blast
qed

lemma refinement_triggered_examples: "refinement_triggered 7 = False" "refinement_triggered 4" "refinement_triggered 2"
  by (simp_all add: refinement_triggered_def is_power_of_two_def)

lemma hi_step_order7_example:
  "\<not> isl (hi_step example_generatedomain example_interp example_mvp_hi 1 1 1 1 7
            example_hi_state7)
   \<and> length (hi_P (projr (hi_step example_generatedomain example_interp example_mvp_hi
                1 1 1 1 7 example_hi_state7))) = 8
   \<and> dat (hi_P (projr (hi_step example_generatedomain example_interp example_mvp_hi
                1 1 1 1 7 example_hi_state7)) ! 7) (0, 0, 0) = 8"
  by (simp add: hi_step_def refinement_triggered_examples xIn_hi_beyond ebind_simps example_hi_state7_def
      example_hi_state_def reshapeF_def ones_def unit_grid_def getP_def example_mvp_hi_def
      example_mvp_def Let_def)


text \<open>
  C8, as stated, fails. At the first order without a branch, 5 in the domain-convergence
  variant and 7 in the interpolating variant, the ladder assigns nothing and the pass
  does not abort: a field is stored for that order (the operator of that order applied
  to the source term still bound from the previous order).
\<close>

theorem C8_counterexample:
  "xIn_dc 1 1 1 1 5 (map (\<lambda>a. hp example_dc_state ! a) (P_slots example_dc_state)) = Inr None
   \<and> \<not> isl (dc_step 1 1 1 1 example_mvp unit_grid 5 example_dc_state)
   \<and> hp (projr (dc_step 1 1 1 1 example_mvp unit_grid 5 example_dc_state))
         ! (P_slots example_dc_state ! 5)
       = example_mvp 5 (hp example_dc_state ! the (xIn_var example_dc_state))
   \<and> xIn_hi example_interp 1 1 1 1 7 example_hi_state7 = Inr None
   \<and> \<not> isl (hi_step example_generatedomain example_interp example_mvp_hi 1 1 1 1 7
            example_hi_state7)
   \<and> length (hi_P (projr (hi_step example_generatedomain example_interp example_mvp_hi
                1 1 1 1 7 example_hi_state7))) = 8
   \<and> dat (hi_P (projr (hi_step example_generatedomain example_interp example_mvp_hi
                1 1 1 1 7 example_hi_state7)) ! 7) (0, 0, 0)
       = 8 * dat (the (hi_xIn example_hi_state7)) (0, 0, 0)"
proof -
  from dc_step_order5_total obtain s' where
    st: "dc_step 1 1 1 1 example_mvp unit_grid 5 example_dc_state = Inr s'" by blast
  have "\<forall>a\<in>set (P_slots example_dc_state). a < length (hp example_dc_state)"
    by (simp add: example_dc_state_def)
  from dc_step_beyond_table[OF st _ this]
  have "hp s' ! (P_slots example_dc_state ! 5)
       = example_mvp 5 (hp example_dc_state ! the (xIn_var example_dc_state))"
    by auto
  with st have dc: "\<not> isl (dc_step 1 1 1 1 example_mvp unit_grid 5 example_dc_state)
   \<and> hp (projr (dc_step 1 1 1 1 example_mvp unit_grid 5 example_dc_state))
         ! (P_slots example_dc_state ! 5)
       = example_mvp 5 (hp example_dc_state ! the (xIn_var example_dc_state))"
    by simp
  have x: "dat (the (hi_xIn example_hi_state7)) (0, 0, 0) = 1"
    by (simp add: example_hi_state7_def ones_def)
  show ?thesis
    using dc hi_step_order7_example by (simp add: xIn_dc_beyond xIn_hi_beyond x)
qed


text \<open>
  C8, amended: for every harmonic order without a coupling-table entry (from 5 on in the
  domain-convergence variant, from 7 on in the interpolating variant) the ladder takes
  no branch, assigns nothing and raises nothing, and the pass does not abort on that
  account: with a source term bound and the other steps of the pass completing (the
  convergence study; the refinement and the reshape), the pass completes. No variant
  has a failure path for an unsupported order.
\<close>

theorem C8_no_abort_beyond_table:
  "(5 \<le> n \<longrightarrow> xIn_dc beta omega rho c n P = Inr None)
   \<and> (7 \<le> m \<longrightarrow> xIn_hi ip beta omega rho c m s = Inr None)
   \<and> (5 \<le> n \<and> xIn_var st = Some xa
        \<and> convergence_domain_size (hp st @ [hp st ! xa]) xa (mvp n) r = Inr (res, h)
        \<and> n < length (P_slots st) \<longrightarrow>
        \<not> isl (dc_step beta omega rho c mvp r n st))
   \<and> (7 \<le> m \<and> (if refinement_triggered m then refine gd s else Inr s) = Inr s1
        \<and> hi_xIn s1 = Some x
        \<and> reshapeF x (dimL (hi_r s1), dimM (hi_r s1), dimN (hi_r s1)) = Inr v
        \<and> m \<le> length (hi_P s1) \<longrightarrow>
        \<not> isl (hi_step gd ip mvph beta omega rho c m s))"
proof -
  have a: "xIn_dc beta omega rho c n P = Inr None" if "5 \<le> n"
    using that by (rule xIn_dc_beyond)
  have b: "xIn_hi ip beta omega rho c m s = Inr None" if "7 \<le> m"
    using that by (rule xIn_hi_beyond)
  have c: "\<not> isl (dc_step beta omega rho c mvp r n st)"
    if h: "5 \<le> n" "xIn_var st = Some xa"
      "convergence_domain_size (hp st @ [hp st ! xa]) xa (mvp n) r = Inr (res, h)"
      "n < length (P_slots st)"
  proof -
    have lad: "xIn_dc beta omega rho c n (map (\<lambda>a. hp st ! a) (P_slots st)) = Inr None"
      using h(1) by (rule xIn_dc_beyond)
    have "dc_step beta omega rho c mvp r n st
       = Inr (st\<lparr>hp := h[P_slots st ! n := mvp n (h ! length (hp st))], xIn_var := Some xa\<rparr>)"
      using dc_step_Inr[where s = st and v = None and ?h1.0 = "hp st" and xa = xa
          and mvp = mvp and i_harm = n and r = r and res = res and ?h3.0 = h
          and beta = beta and omega = omega and rho = rho and c = c] lad h(2,3,4)
      by simp
    then show ?thesis by simp
  qed
  have d: "\<not> isl (hi_step gd ip mvph beta omega rho c m s)"
    if h: "7 \<le> m" "(if refinement_triggered m then refine gd s else Inr s) = Inr s1"
      "hi_xIn s1 = Some x"
      "reshapeF x (dimL (hi_r s1), dimM (hi_r s1), dimN (hi_r s1)) = Inr v"
      "m \<le> length (hi_P s1)"
  proof -
    have lad: "xIn_hi ip beta omega rho c m s1 = Inr None"
      using h(1) by (rule xIn_hi_beyond)
    from h(5) have g: "getP (hi_P s1 @ [\<lparr>shape = (dimL (hi_r s1), dimM (hi_r s1), dimN (hi_r s1)),
                                  dat = mvph m (hi_r s1) (dat v)\<rparr>]) m
        = Inr ((hi_P s1 @ [\<lparr>shape = (dimL (hi_r s1), dimM (hi_r s1), dimN (hi_r s1)),
                                  dat = mvph m (hi_r s1) (dat v)\<rparr>]) ! m)"
      by (simp add: getP_def)
    show ?thesis
      unfolding hi_step_def h(2) ebind_simps lad
      by (simp add: h(3,4) ebind_simps Let_def g)
  qed
  from a b c d show ?thesis by blast
qed


theorem C8_no_abort_beyond_table_witness:
  "(5::nat) \<le> 5 \<and> xIn_dc 1 1 1 1 5 [dat ones] = Inr None
   \<and> (7::nat) \<le> 7 \<and> xIn_hi example_interp 1 1 1 1 7 example_hi_state7 = Inr None
   \<and> xIn_var example_dc_state = Some 6
   \<and> (\<exists>res h. convergence_domain_size (hp example_dc_state @ [hp example_dc_state ! 6]) 6
                 (example_mvp 5) unit_grid = Inr (res, h))
   \<and> 5 < length (P_slots example_dc_state)
   \<and> \<not> isl (dc_step 1 1 1 1 example_mvp unit_grid 5 example_dc_state)
   \<and> (if refinement_triggered 7 then refine example_generatedomain example_hi_state7
       else Inr example_hi_state7) = Inr example_hi_state7
   \<and> hi_xIn example_hi_state7 = Some ones
   \<and> \<not> isl (reshapeF ones (dimL (hi_r example_hi_state7), dimM (hi_r example_hi_state7),
                          dimN (hi_r example_hi_state7)))
   \<and> 7 \<le> length (hi_P example_hi_state7)
   \<and> \<not> isl (hi_step example_generatedomain example_interp example_mvp_hi 1 1 1 1 7
             example_hi_state7)"
proof -
  have "\<exists>res h'. convergence_domain_size (hp example_dc_state @ [hp example_dc_state ! 6]) 6
      (example_mvp 5) unit_grid = Inr (res, h')"
    by (rule convergence_domain_size_total[where p = "(0, 0, 0)"])
      (simp_all add: unit_grid_def indices_1_1_1 example_dc_state_def ones_def)
  then obtain res h where st: "convergence_domain_size
      (hp example_dc_state @ [hp example_dc_state ! 6]) 6 (example_mvp 5) unit_grid
      = Inr (res, h)" by blast
  have d: "xIn_var example_dc_state = Some 6" "5 < length (P_slots example_dc_state)"
    by (simp_all add: example_dc_state_def)
  have r7: "(if refinement_triggered 7 then refine example_generatedomain example_hi_state7
       else Inr example_hi_state7) = Inr example_hi_state7"
    by (simp add: refinement_triggered_examples)
  have x7: "hi_xIn example_hi_state7 = Some ones" "7 \<le> length (hi_P example_hi_state7)"
    by (simp_all add: example_hi_state7_def)
  have "\<not> isl (reshapeF ones (dimL (hi_r example_hi_state7), dimM (hi_r example_hi_state7),
                          dimN (hi_r example_hi_state7)))"
    by (simp add: reshapeF_def ones_def example_hi_state7_def example_hi_state_def unit_grid_def)
  then obtain v where v: "reshapeF ones (dimL (hi_r example_hi_state7),
      dimM (hi_r example_hi_state7), dimN (hi_r example_hi_state7)) = Inr v"
    by (cases "reshapeF ones (dimL (hi_r example_hi_state7),
      dimM (hi_r example_hi_state7), dimN (hi_r example_hi_state7))") auto
  note inst = C8_no_abort_beyond_table [where n = 5 and m = 7 and beta = 1 and omega = 1 and rho = 1 and c = 1
      and P = "[dat ones]" and ip = example_interp and s = example_hi_state7
      and st = example_dc_state and xa = 6 and mvp = example_mvp and r = unit_grid
      and res = res and h = h and gd = example_generatedomain and ?s1.0 = example_hi_state7
      and x = ones and v = v and mvph = example_mvp_hi]
  from inst have a: "xIn_dc 1 1 1 1 5 [dat ones] = Inr None"
    "xIn_hi example_interp 1 1 1 1 7 example_hi_state7 = Inr None" by simp_all
  from inst st d have b: "\<not> isl (dc_step 1 1 1 1 example_mvp unit_grid 5 example_dc_state)"
    by simp
  from inst r7 x7 v have c: "\<not> isl (hi_step example_generatedomain example_interp
      example_mvp_hi 1 1 1 1 7 example_hi_state7)"
    by simp
  from v have nv: "\<not> isl (reshapeF ones (dimL (hi_r example_hi_state7),
      dimM (hi_r example_hi_state7), dimN (hi_r example_hi_state7)))" by simp
  from a b c d r7 x7 nv st show ?thesis by auto
qed


subsection \<open>Refinement and the stored fields\<close>

lemma xIn_hi_order4_ignores_interp:
  "xIn_hi ip beta omega rho c 4 (s\<lparr>hi_r := g, hi_r2 := g2, interp_funs := fs\<rparr>)
     = xIn_hi ip' beta omega rho c 4 s"
  by (simp add: xIn_hi_def)

lemma upt_1_5: "[Suc 0..<5] = [Suc 0, 2, 3, 4]"
  by (simp add: upt_rec)

text \<open>
  C4 on the cascade as shipped (\<^verbatim>\<open>n_harm = 5\<close>), run on one-voxel meshes with an
  interpolator that doubles what it interpolates. The meshes on which the five stored
  fields were sampled have their voxel at \<open>x = 0, 0, -3/4, -3/4, -9/8\<close>: the mesh is
  refined at orders 2 and 4, and at order 4 the four prior fields live on superseded
  meshes. At order 2 the fields went through the interpolator
  (\<open>P\<^sub>2 = 3 \<cdot> (-9) \<cdot> (2 \<cdot> 1) \<cdot> (2 \<cdot> (-4)) = 432\<close>); at order 4 the source term is
  \<open>-25 (P\<^sub>0P\<^sub>3 + P\<^sub>1P\<^sub>2)\<close> of the stored values themselves: none was interpolated onto
  the new mesh.
\<close>

theorem C4_order4_uses_unmapped_fields:
  "\<not> isl (hi_cascade example_generatedomain doubling_interp example_mvp_hi 1 1 1 1 5
            initial_hi_state)
   \<and> map (\<lambda>ga. coord (fst ga) (0, 0, 0) 0)
        (interp_funs (projr (hi_cascade example_generatedomain doubling_interp example_mvp_hi
           1 1 1 1 5 initial_hi_state)))
       = [0, 0, - (3 / 4), - (3 / 4), - (9 / 8)]
   \<and> coord (hi_r (projr (hi_cascade example_generatedomain doubling_interp example_mvp_hi
        1 1 1 1 5 initial_hi_state))) (0, 0, 0) 0 = - (9 / 8)
   \<and> map (\<lambda>a. dat a (0, 0, 0))
        (hi_P (projr (hi_cascade example_generatedomain doubling_interp example_mvp_hi
           1 1 1 1 5 initial_hi_state)))
       = [1, - 4, 432, - 112640, 14296000]
   \<and> dat (the (hi_xIn (projr (hi_cascade example_generatedomain doubling_interp
        example_mvp_hi 1 1 1 1 5 initial_hi_state)))) (0, 0, 0)
       = - 25 * (1 * (- 112640) + (- 4) * 432)"
  apply (simp add: hi_cascade_def upt_1_5)
  apply (simp add: hi_step_def refinement_triggered_def is_power_of_two_def refine_def
      xIn_hi_def interp_at_def doubling_interp_def source_scalar_def getP_def ebind_simps
      np_mul_def np_add_def broadcast2_def bdim_def bidx_def np_scale_def ones_def
      reshapeF_def Let_def unit_grid_def example_mvp_hi_def example_mvp_def
      example_generatedomain_def initial_hi_state_def)
  done


subsection \<open>Refinement policy\<close>

text \<open>
  C3, as stated, fails. Read with the order index of the loop, ``one past a power of
  two'' includes order 3, where the code does not refine; read with the harmonic
  number \<open>n + 1\<close>, it includes order 1, which the guard \<^verbatim>\<open>i_harm != 1\<close> excludes.
\<close>

theorem C3_counterexample:
  "(3::nat) = 2 ^ 1 + 1 \<and> \<not> refinement_triggered 3
   \<and> (1::nat) + 1 = 2 ^ 0 + 1 \<and> \<not> refinement_triggered 1"
  by (simp add: refinement_triggered_def is_power_of_two_def)

text \<open>
  C3, amended: for every order index \<open>n \<ge> 1\<close> of the loop, the grid is refined
  exactly when \<open>n\<close> itself is a power of two other than 1 (orders 2, 4, 8, ...), that
  is when the harmonic number \<open>n + 1\<close> is one past a power of two that is at least 2.
\<close>

theorem C3_refinement_at_powers_of_two:
  "1 \<le> n \<Longrightarrow> refinement_triggered n \<longleftrightarrow> (\<exists>k\<ge>1. n = 2 ^ k)"
proof -
  assume n: "1 \<le> n"
  have "(\<exists>k. int n = 2 ^ k) = (\<exists>k. n = 2 ^ k)"
    by (metis of_nat_numeral of_nat_power of_nat_eq_iff)
  then have p: "is_power_of_two (int n) = (\<exists>k. n = 2 ^ k)"
    using n and_pred_zero_iff_power[of "int n"] by (simp add: is_power_of_two_def)
  show ?thesis
  proof
    assume "refinement_triggered n"
    then obtain k where k: "n = 2 ^ k" and n1: "n \<noteq> 1"
      using p by (auto simp: refinement_triggered_def)
    then have "k \<ge> 1" by (cases k) auto
    with k show "\<exists>k\<ge>1. n = 2 ^ k" by blast
  next
    assume "\<exists>k\<ge>1. n = 2 ^ k"
    then obtain k where k: "k \<ge> 1" "n = 2 ^ k" by blast
    then have "n \<noteq> 1" by (cases k) auto
    with k p show "refinement_triggered n" by (auto simp: refinement_triggered_def)
  qed
qed

theorem C3_refinement_at_powers_of_two_witness:
  "(1::nat) \<le> 4 \<and> refinement_triggered 4 \<and> (\<exists>k\<ge>1. (4::nat) = 2 ^ k)"
proof -
  have h: "(1::nat) \<le> 4" by simp
  have t: "refinement_triggered 4"
    by (simp add: refinement_triggered_def is_power_of_two_def)
  from C3_refinement_at_powers_of_two [OF h] t have "\<exists>k\<ge>1. (4::nat) = 2 ^ k" by simp
  with h t show ?thesis by simp
qed

subsection \<open>Attenuation\<close>

text \<open>
  C9: for every frequency and every \<open>alpha0\<close>, \<open>eta\<close>, the attenuation of the
  homogeneous-interpolation variant is 8.686 times that of the domain-convergence
  variant, which alone divides the power law by the conversion constant.
\<close>

theorem C9_attenuation_ratio:
  "attenuation_hi f alpha0 eta = (8686 / 1000) * attenuation_dc f alpha0 eta
   \<and> attenuation_dc f alpha0 eta = alpha0 * (f * (1 / 10 ^ 6)) powr eta / (8686 / 1000)
   \<and> attenuation_hi f alpha0 eta = alpha0 * (f * (1 / 10 ^ 6)) powr eta"
  by (simp add: attenuation_hi_def attenuation_dc_def)

end
